theory Spec2Isabelle
  imports Complex_Main "HOL-Library.AList" "HOL-Library.Multiset"
begin

section \<open>The inbox generator\<close>

text \<open>
  The script draws from two sources. The module \<open>random\<close> is seeded by
  \<open>random.seed(cfg.seed)\<close>: its draws are a function of the seed. \<open>uuid4()\<close> reads the
  operating system's entropy and is not touched by \<open>random.seed\<close>. Both are modelled
  as streams with a read position; every library call reads one element. Python floats are
  modelled by exact real numbers.
\<close>

subsection \<open>Data\<close>

text \<open>
  A CSV cell is the text the script formats. \<open>Str\<close> is a text that is not a number,
  \<open>Num n\<close> is \<open>str(n)\<close>, \<open>Dec k n\<close> is the decimal with \<open>k\<close> digits after the point
  and value \<open>n / 10^k\<close> (\<open>f"{x:.2f}"\<close> is \<open>Dec 2\<close>), \<open>Date d\<close> is \<open>fmt_date\<close> of the
  day with ordinal \<open>d\<close>, \<open>Ts d h m\<close> is \<open>fmt_ts\<close> of day \<open>d\<close>, \<open>h\<close> hours, \<open>m\<close> minutes.
\<close>

datatype cell = Str string | Num int | Dec nat int | Date int | Ts int int int

type_synonym row = "cell list"

datatype error = IndexError | ValueError

record config =
  output_dir :: string
  start_date :: int
  num_days :: int
  num_merchants :: int
  apps_per_day :: int
  disb_rate :: real
  pays_per_disb :: int
  no_header_every_n_days :: int
  duplicate_rate :: real
  invalid_rate :: real
  broken_ref_rate :: real
  late_arrival_rate :: real
  seed :: int

record merchant =
  merchant_id :: cell
  business_name :: cell
  industry_code :: cell
  state_code :: cell
  annual_revenue :: cell
  employees_count :: cell
  risk_score :: cell
  onboarding_date :: cell

text \<open>What one call of \<open>write_csv\<close> leaves on disk: the header line, if any, and the rows.\<close>

record csv =
  path :: "string \<times> string \<times> cell"
  header :: "string list option"
  body :: "row list"

text \<open>
  The mutable state of \<open>main\<close>: the two sources, the dictionaries (insertion-ordered, as
  Python's are), the id lists and the files written so far.
\<close>

record state =
  draws :: "nat \<Rightarrow> real"
  pos :: nat
  uuids :: "nat \<Rightarrow> string"
  upos :: nat
  merchant_by_id :: "(cell \<times> merchant) list"
  carry_apps :: "(cell \<times> row) list"
  carry_pays :: "(cell \<times> row) list"
  all_app_ids :: "cell list"
  all_disb_ids :: "cell list"
  fs :: "csv list"

type_synonym 'a gen = "state \<Rightarrow> error + ('a \<times> state)"

definition ret :: "'a \<Rightarrow> 'a gen" where
  "ret a = (\<lambda>s. Inr (a, s))"

definition raise :: "error \<Rightarrow> 'a gen" where
  "raise e = (\<lambda>s. Inl e)"

definition bnd :: "'a gen \<Rightarrow> ('a \<Rightarrow> 'b gen) \<Rightarrow> 'b gen" where
  "bnd m f = (\<lambda>s. case m s of Inl e \<Rightarrow> Inl e | Inr (a, s') \<Rightarrow> f a s')"

definition modify :: "(state \<Rightarrow> state) \<Rightarrow> unit gen" where
  "modify f = (\<lambda>s. Inr ((), f s))"

definition gets :: "(state \<Rightarrow> 'a) \<Rightarrow> 'a gen" where
  "gets f = (\<lambda>s. Inr (f s, s))"

text \<open>\<open>for x in xs: body\<close>, the loop's local variables in the accumulator.\<close>

fun for_each :: "'a list \<Rightarrow> ('a \<Rightarrow> 'b \<Rightarrow> 'b gen) \<Rightarrow> 'b \<Rightarrow> 'b gen" where
  "for_each [] f acc = ret acc"
| "for_each (x # xs) f acc = bnd (f x acc) (for_each xs f)"

definition py_range :: "int \<Rightarrow> nat list" where
  "py_range n = [0..<nat n]"

definition getitem :: "'a list \<Rightarrow> nat \<Rightarrow> 'a gen" where
  "getitem xs i = (if i < length xs then ret (xs ! i) else raise IndexError)"

definition setitem :: "'a list \<Rightarrow> nat \<Rightarrow> 'a \<Rightarrow> 'a list gen" where
  "setitem xs i v = (if i < length xs then ret (xs[i := v]) else raise IndexError)"

subsection \<open>Constants\<close>

definition MERCH_HEADERS :: "string list" where
  "MERCH_HEADERS = [''merchant_id'', ''business_name'', ''industry_code'', ''state_code'',
     ''annual_revenue'', ''employees_count'', ''risk_score'', ''onboarding_date'']"

definition APP_HEADERS :: "string list" where
  "APP_HEADERS = [''application_id'', ''merchant_id'', ''application_date'', ''requested_amount'',
     ''loan_purpose'', ''application_status'', ''credit_score'', ''processing_time'']"

definition DISB_HEADERS :: "string list" where
  "DISB_HEADERS = [''disbursement_id'', ''application_id'', ''merchant_id'', ''disbursed_amount'',
     ''disbursement_date'', ''interest_rate'', ''term_months'', ''repayment_schedule'']"

definition PAY_HEADERS :: "string list" where
  "PAY_HEADERS = [''payment_id'', ''disbursement_id'', ''merchant_id'', ''payment_date'',
     ''payment_amount'', ''payment_method'', ''is_scheduled'', ''days_from_due'',
     ''processing_timestamp'']"

definition STATES :: "cell list" where
  "STATES = map Str [''CA'', ''TX'', ''FL'', ''NY'', ''IL'', ''WA'', ''MA'', ''GA'', ''CO'', ''AZ'']"

definition INDUSTRIES :: "cell list" where
  "INDUSTRIES = map Str [''42310'', ''44512'', ''54161'', ''62120'', ''72251'', ''33411'',
     ''81111'', ''53111'']"

definition PURPOSES :: "cell list" where
  "PURPOSES = map Str [''INVENTORY'', ''WORKING_CAPITAL'', ''EXPANSION'', ''EQUIPMENT'', ''PAYROLL'']"

definition SCHEDULES :: "cell list" where
  "SCHEDULES = map Str [''DAILY'', ''WEEKLY'', ''MONTHLY'']"

definition PAY_METHODS :: "cell list" where
  "PAY_METHODS = map Str [''ACH'', ''CARD'', ''CHECK'', ''WIRE'']"

subsection \<open>Formatting and parsing\<close>

text \<open>Rounding to the nearest integer, ties to even, as \<open>round\<close> and \<open>%.2f\<close> do.\<close>

definition round_half_even :: "real \<Rightarrow> int" where
  "round_half_even x =
     (let f = \<lfloor>x\<rfloor>; d = x - of_int f
      in if d < 1 / 2 then f else if 1 / 2 < d then f + 1 else if even f then f else f + 1)"

definition py_round :: "real \<Rightarrow> nat \<Rightarrow> real" where
  "py_round x k = of_int (round_half_even (x * 10 ^ k)) / 10 ^ k"

definition fmt_dec :: "nat \<Rightarrow> real \<Rightarrow> cell" where
  "fmt_dec k x = Dec k (round_half_even (x * 10 ^ k))"

definition fmt_date :: "int \<Rightarrow> cell" where
  "fmt_date d = Date d"

definition fmt_ts :: "int \<Rightarrow> int \<Rightarrow> int \<Rightarrow> cell" where
  "fmt_ts d h m = Ts d h m"

text \<open>\<open>float(text)\<close> and \<open>date.fromisoformat(text)\<close> raise ValueError on other text.\<close>

fun py_float :: "cell \<Rightarrow> real gen" where
  "py_float (Num n) = ret (of_int n)"
| "py_float (Dec k n) = ret (of_int n / 10 ^ k)"
| "py_float c = raise ValueError"

fun fromisoformat :: "cell \<Rightarrow> int gen" where
  "fromisoformat (Date d) = ret d"
| "fromisoformat c = raise ValueError"

text \<open>\<open>int(x)\<close> truncates towards zero.\<close>

definition py_int :: "real \<Rightarrow> int" where
  "py_int x = (if 0 \<le> x then \<lfloor>x\<rfloor> else \<lceil>x\<rceil>)"

fun str_nat :: "nat \<Rightarrow> string" where
  "str_nat n = (if n < 10 then [''0123456789'' ! n]
                else str_nat (n div 10) @ [''0123456789'' ! (n mod 10)])"

declare str_nat.simps [simp del]

definition zfill4 :: "nat \<Rightarrow> string" where
  "zfill4 n = replicate (4 - length (str_nat n)) (CHR ''0'') @ str_nat n"

subsection \<open>The random sources\<close>

definition random_random :: "real gen" where
  "random_random = (\<lambda>s. Inr (frac (draws s (pos s)), s\<lparr>pos := Suc (pos s)\<rparr>))"

definition uuid4 :: "cell gen" where
  "uuid4 = (\<lambda>s. Inr (Str (uuids s (upos s)), s\<lparr>upos := Suc (upos s)\<rparr>))"

definition chance :: "real \<Rightarrow> bool gen" where
  "chance p = bnd random_random (\<lambda>u. ret (u < p))"

definition clamp :: "real \<Rightarrow> real \<Rightarrow> real \<Rightarrow> real" where
  "clamp x lo hi = max lo (min hi x)"

definition uniform :: "real \<Rightarrow> real \<Rightarrow> real gen" where
  "uniform a b = bnd random_random (\<lambda>u. ret (a + (b - a) * u))"

definition randbelow :: "nat \<Rightarrow> nat gen" where
  "randbelow n = bnd random_random (\<lambda>u. ret (nat \<lfloor>u * of_nat n\<rfloor>))"

definition randint :: "int \<Rightarrow> int \<Rightarrow> int gen" where
  "randint a b = bnd (randbelow (nat (b - a + 1))) (\<lambda>k. ret (a + int k))"

definition choice :: "'a list \<Rightarrow> 'a gen" where
  "choice xs = (if xs = [] then raise IndexError
                else bnd (randbelow (length xs)) (\<lambda>i. ret (xs ! i)))"

fun accumulate :: "real \<Rightarrow> real list \<Rightarrow> real list" where
  "accumulate a [] = []"
| "accumulate a (w # ws) = (a + w) # accumulate (a + w) ws"

text \<open>\<open>random.choices(population, weights, k=1)[0]\<close>: a bisection of the cumulative weights.\<close>

definition choices :: "'a list \<Rightarrow> real list \<Rightarrow> 'a gen" where
  "choices population weights =
     bnd random_random (\<lambda>u.
       let cum = accumulate 0 weights;
           x = u * last cum
       in getitem population (length (filter (\<lambda>c. c \<le> x) (butlast cum))))"

text \<open>\<open>random.shuffle\<close>: for i from the last index down to 1, swap x[i] with x[randbelow(i+1)].\<close>

definition shuffle_step :: "nat \<Rightarrow> 'a list \<Rightarrow> 'a list gen" where
  "shuffle_step i x = bnd (randbelow (i + 1)) (\<lambda>j. ret (x[i := x ! j, j := x ! i]))"

definition shuffle :: "'a list \<Rightarrow> 'a list gen" where
  "shuffle x = for_each (rev [1..<length x]) shuffle_step x"

subsection \<open>The merchant pool\<close>

definition gen_merchant :: "config \<Rightarrow> nat \<Rightarrow> merchant list \<Rightarrow> merchant list gen" where
  "gen_merchant cfg i merchants =
     bnd uuid4 (\<lambda>mid.
     bnd (choice INDUSTRIES) (\<lambda>industry.
     bnd (choice STATES) (\<lambda>st.
     bnd (uniform 50000 5000000) (\<lambda>u.
     bnd (randint 1 250) (\<lambda>employees.
     bnd random_random (\<lambda>r.
     bnd (randint 30 900) (\<lambda>days.
       let revenue = py_round u 2;
           risk = py_round (clamp r 0 1) 2;
           onboard = start_date cfg - days
       in ret (merchants @ [\<lparr>
            merchant_id = mid,
            business_name = Str (''Merchant '' @ zfill4 i),
            industry_code = industry,
            state_code = st,
            annual_revenue = fmt_dec 2 revenue,
            employees_count = Num employees,
            risk_score = fmt_dec 2 risk,
            onboarding_date = fmt_date onboard\<rparr>]))))))))"

definition gen_merchants :: "config \<Rightarrow> merchant list gen" where
  "gen_merchants cfg = for_each (py_range (num_merchants cfg)) (gen_merchant cfg) []"

definition sample_merch :: "merchant list \<Rightarrow> merchant gen" where
  "sample_merch merchants = choice merchants"

definition mutate_merchant :: "merchant \<Rightarrow> merchant gen" where
  "mutate_merchant m =
     bnd random_random (\<lambda>u.
       if u < 1 / 2 then
         bnd (py_float (risk_score m)) (\<lambda>r.
         bnd (uniform (- (1 / 10)) (1 / 10)) (\<lambda>d.
           ret (m\<lparr>risk_score := fmt_dec 2 (clamp (r + d) 0 1)\<rparr>)))
       else
         bnd (py_float (annual_revenue m)) (\<lambda>rev.
         bnd (uniform (95 / 100) (115 / 100)) (\<lambda>f.
           ret (m\<lparr>annual_revenue := fmt_dec 2 (max 1 (rev * f))\<rparr>))))"

definition merchant_row :: "merchant \<Rightarrow> row" where
  "merchant_row m = [merchant_id m, business_name m, industry_code m, state_code m,
     annual_revenue m, employees_count m, risk_score m, onboarding_date m]"

subsection \<open>One day\<close>

definition write_csv :: "string \<times> string \<times> cell \<Rightarrow> string list \<Rightarrow> row list \<Rightarrow> bool \<Rightarrow> unit gen" where
  "write_csv p headers rows include_header =
     modify (\<lambda>s. s\<lparr>fs := fs s @
       [\<lparr>path = p, header = (if include_header then Some headers else None), body = rows\<rparr>]\<rparr>)"

definition include_header_merch :: "config \<Rightarrow> nat \<Rightarrow> bool" where
  "include_header_merch cfg day_idx =
     (\<not> (no_header_every_n_days cfg \<noteq> 0 \<and> int day_idx mod no_header_every_n_days cfg = 1))"

definition include_header_disb :: "config \<Rightarrow> nat \<Rightarrow> bool" where
  "include_header_disb cfg day_idx =
     (\<not> (no_header_every_n_days cfg \<noteq> 0 \<and> int day_idx mod no_header_every_n_days cfg = 2))"

definition bad_merchant :: row where
  "bad_merchant = [Str ''not-a-uuid'', Str ''Bad Merchant'', Str ''ABCDE'', Str ''C'', Num (- 1),
     Str ''x'', Dec 2 150, Str ''not-a-date'']"

definition bad_app :: row where
  "bad_app = [Str ''bad-app'', Str '''', Str ''not-a-date'', Num (- 5), Str ''OTHER'',
     Str ''UNKNOWN'', Num 999, Str ''not-a-ts'']"

definition bad_disb :: "cell \<Rightarrow> cell \<Rightarrow> row" where
  "bad_disb a b = [Str ''bad-disb'', a, b, Num 0, Str ''not-a-date'', Dec 1 (- 1), Num 0,
     Str ''YEARLY'']"

definition bad_pay :: "cell \<Rightarrow> row" where
  "bad_pay a = [Str ''bad-pay'', a, Str '''', Str ''not-a-date'', Num (- 1), Str ''CASH'',
     Str ''MAYBE'', Str ''x'', Str ''not-a-ts'']"

text \<open>The body of \<open>for m in merchants\<close>.\<close>

definition snapshot_merchant :: "merchant \<Rightarrow> row list \<Rightarrow> row list gen" where
  "snapshot_merchant m merch_rows =
     bnd (chance (8 / 100)) (\<lambda>c.
       if c then
         bnd (mutate_merchant m) (\<lambda>row.
         bnd (modify (\<lambda>s. s\<lparr>merchant_by_id :=
                AList.update (merchant_id m) row (merchant_by_id s)\<rparr>)) (\<lambda>_.
           ret (merch_rows @ [merchant_row row])))
       else ret (merch_rows @ [merchant_row m]))"

definition merchants_stage :: "config \<Rightarrow> merchant list \<Rightarrow> row list gen" where
  "merchants_stage cfg merchants =
     bnd (for_each merchants snapshot_merchant []) (\<lambda>merch_rows.
     bnd (if merch_rows \<noteq> [] then chance (duplicate_rate cfg) else ret False) (\<lambda>dup.
     bnd (if dup then bnd (choice merch_rows) (\<lambda>r. ret (merch_rows @ [r])) else ret merch_rows)
       (\<lambda>merch_rows.
     bnd (chance (invalid_rate cfg)) (\<lambda>inv.
       ret (if inv then merch_rows @ [bad_merchant] else merch_rows)))))"

text \<open>The resurfacing of an old application.\<close>

definition resurface_app :: "int \<Rightarrow> row list gen" where
  "resurface_app batch_date =
     bnd (gets carry_apps) (\<lambda>carry.
     bnd (if carry \<noteq> [] then chance (1 / 4) else ret False) (\<lambda>c.
       if c then
         bnd (choice carry) (\<lambda>(old_id, old_row).
         bnd (getitem old_row 5) (\<lambda>status.
         bnd (setitem old_row 5 (if status = Str ''PENDING'' then Str ''APPROVED'' else status))
           (\<lambda>updated.
         bnd (randint 0 59) (\<lambda>minutes.
         bnd (setitem updated 7 (fmt_ts batch_date 2 minutes)) (\<lambda>updated.
           ret [updated])))))
       else ret []))"

text \<open>The body of \<open>for _ in range(cfg.apps_per_day)\<close>.\<close>

definition gen_application :: "config \<Rightarrow> int \<Rightarrow> nat \<Rightarrow> row list \<Rightarrow> row list gen" where
  "gen_application cfg batch_date i apps_rows =
     bnd uuid4 (\<lambda>app_id.
     bnd (gets (\<lambda>s. map snd (merchant_by_id s))) (\<lambda>pool.
     bnd (sample_merch pool) (\<lambda>m.
     bnd (chance (late_arrival_rate cfg)) (\<lambda>late.
     bnd (if late then randint 0 10 else randint 0 2) (\<lambda>days.
     bnd (uniform 5000 250000) (\<lambda>u.
     bnd (choices [Str ''PENDING'', Str ''APPROVED'', Str ''REJECTED'']
            [25 / 100, 55 / 100, 20 / 100]) (\<lambda>status.
     bnd (randint 300 850) (\<lambda>credit.
     bnd (randint 0 59) (\<lambda>minutes.
     bnd (choice PURPOSES) (\<lambda>purpose.
       let requested = py_round u 2;
           row = [app_id, merchant_id m, fmt_date (batch_date - days), fmt_dec 2 requested,
                  purpose, status, Num credit, fmt_ts batch_date 2 minutes]
       in
     bnd (modify (\<lambda>s. s\<lparr>carry_apps := AList.update app_id row (carry_apps s),
                         all_app_ids := all_app_ids s @ [app_id]\<rparr>)) (\<lambda>_.
     bnd (chance (duplicate_rate cfg)) (\<lambda>dup.
       ret (if dup then apps_rows @ [row, row] else apps_rows @ [row])))))))))))))"

definition applications_stage :: "config \<Rightarrow> int \<Rightarrow> row list gen" where
  "applications_stage cfg batch_date =
     bnd (resurface_app batch_date) (\<lambda>apps_rows.
     bnd (for_each (py_range (apps_per_day cfg)) (gen_application cfg batch_date) apps_rows)
       (\<lambda>apps_rows.
     bnd (chance (invalid_rate cfg)) (\<lambda>inv.
       ret (if inv then apps_rows @ [bad_app] else apps_rows))))"

definition is_approved :: "row \<Rightarrow> bool" where
  "is_approved r = (6 \<le> length r \<and> r ! 5 = Str ''APPROVED'')"

text \<open>The body of \<open>for i in range(num_disb)\<close>.\<close>

definition gen_disbursement ::
    "config \<Rightarrow> int \<Rightarrow> row list \<Rightarrow> nat \<Rightarrow> row list \<Rightarrow> row list gen" where
  "gen_disbursement cfg batch_date approved_apps i disb_rows =
     bnd (getitem approved_apps i) (\<lambda>app_row.
     bnd (getitem app_row 0) (\<lambda>app_id.
     bnd (getitem app_row 1) (\<lambda>merch_id.
     bnd uuid4 (\<lambda>disb_id.
     bnd (chance (late_arrival_rate cfg)) (\<lambda>late.
     bnd (if late then randint 1 20 else randint 0 2) (\<lambda>days.
     bnd (getitem app_row 3) (\<lambda>requested.
     bnd (py_float requested) (\<lambda>amount.
     bnd (uniform (85 / 100) 1) (\<lambda>f.
     bnd (chance (broken_ref_rate cfg)) (\<lambda>broken.
     bnd (if broken then uuid4 else ret app_id) (\<lambda>app_id_used.
     bnd (uniform (8 / 100) (25 / 100)) (\<lambda>rate.
     bnd (choice [6, 9, 12, 18]) (\<lambda>term.
     bnd (choice SCHEDULES) (\<lambda>schedule.
       let amount = py_round (amount * f) 2;
           row = [disb_id, app_id_used, merch_id, fmt_dec 2 amount, fmt_date (batch_date - days),
                  fmt_dec 4 rate, Num term, schedule]
       in
     bnd (modify (\<lambda>s. s\<lparr>all_disb_ids := all_disb_ids s @ [disb_id]\<rparr>)) (\<lambda>_.
     bnd (chance (duplicate_rate cfg)) (\<lambda>dup.
       ret (if dup then disb_rows @ [row, row] else disb_rows @ [row])))))))))))))))))"

definition disbursements_stage :: "config \<Rightarrow> int \<Rightarrow> row list \<Rightarrow> row list gen" where
  "disbursements_stage cfg batch_date apps_rows =
     bnd (shuffle (filter is_approved apps_rows)) (\<lambda>approved_apps.
       let num_disb = py_int (of_nat (length approved_apps) * disb_rate cfg) in
     bnd (for_each (py_range num_disb) (gen_disbursement cfg batch_date approved_apps) [])
       (\<lambda>disb_rows.
     bnd (chance (invalid_rate cfg)) (\<lambda>inv.
       if inv then
         bnd uuid4 (\<lambda>a.
         bnd uuid4 (\<lambda>b.
           ret (disb_rows @ [bad_disb a b])))
       else ret disb_rows)))"

text \<open>The resurfacing of an old payment.\<close>

definition resurface_pay :: "int \<Rightarrow> row list gen" where
  "resurface_pay batch_date =
     bnd (gets carry_pays) (\<lambda>carry.
     bnd (if carry \<noteq> [] then chance (1 / 4) else ret False) (\<lambda>c.
       if c then
         bnd (choice carry) (\<lambda>(old_pid, old_row).
         bnd (getitem old_row 4) (\<lambda>old_amount.
         bnd (py_float old_amount) (\<lambda>a.
         bnd (uniform (95 / 100) (105 / 100)) (\<lambda>f.
         bnd (setitem old_row 4 (fmt_dec 2 (max 1 (a * f)))) (\<lambda>updated.
         bnd (randint 0 59) (\<lambda>minutes.
         bnd (setitem updated 8 (fmt_ts batch_date 10 minutes)) (\<lambda>updated.
           ret [updated])))))))
       else ret []))"

text \<open>
  The body of \<open>for k in range(cfg.pays_per_disb)\<close>; it runs only when
  \<open>pays_per_disb\<close> is positive, so the division is defined.
\<close>

definition gen_payment ::
    "config \<Rightarrow> int \<Rightarrow> row \<Rightarrow> cell \<Rightarrow> cell \<Rightarrow> int \<Rightarrow> nat \<Rightarrow> row list \<Rightarrow> row list gen" where
  "gen_payment cfg batch_date disb_row disb_id merch_id disb_date k pay_rows =
     bnd uuid4 (\<lambda>pid.
     bnd (getitem disb_row 3) (\<lambda>disbursed.
     bnd (py_float disbursed) (\<lambda>a.
     bnd (uniform (9 / 10) (11 / 10)) (\<lambda>f.
     bnd (choice PAY_METHODS) (\<lambda>method.
     bnd (choice [Str ''TRUE'', Str ''FALSE'']) (\<lambda>is_sched.
     bnd (chance (3 / 100)) (\<lambda>dflt.
     bnd (if dflt then randint 30 60 else choice [0, 0, 0, - 2, - 1, 1, 3, 7, 12])
       (\<lambda>days_from_due.
     bnd (randint 0 59) (\<lambda>minutes.
     bnd (chance (broken_ref_rate cfg)) (\<lambda>broken.
     bnd (if \<not> broken then ret disb_id else uuid4) (\<lambda>disb_id_used.
       let pay_date = disb_date + (int k + 1) * 7;
           amount = py_round (a / of_int (pays_per_disb cfg) * f) 2;
           row = [pid, disb_id_used, merch_id, fmt_date pay_date, fmt_dec 2 (max 1 amount),
                  method, is_sched, Num days_from_due, fmt_ts batch_date 9 minutes]
       in
     bnd (modify (\<lambda>s. s\<lparr>carry_pays := AList.update pid row (carry_pays s)\<rparr>)) (\<lambda>_.
     bnd (chance (duplicate_rate cfg)) (\<lambda>dup.
       ret (if dup then pay_rows @ [row, row] else pay_rows @ [row]))))))))))))))"

text \<open>The body of \<open>for disb_row in disb_rows\<close>.\<close>

definition gen_payments :: "config \<Rightarrow> int \<Rightarrow> row \<Rightarrow> row list \<Rightarrow> row list gen" where
  "gen_payments cfg batch_date disb_row pay_rows =
     bnd (getitem disb_row 0) (\<lambda>disb_id.
     bnd (getitem disb_row 2) (\<lambda>merch_id.
     bnd (getitem disb_row 4) (\<lambda>d.
     bnd (fromisoformat d) (\<lambda>disb_date.
       for_each (py_range (pays_per_disb cfg))
         (gen_payment cfg batch_date disb_row disb_id merch_id disb_date) pay_rows))))"

definition payments_stage :: "config \<Rightarrow> int \<Rightarrow> row list \<Rightarrow> row list gen" where
  "payments_stage cfg batch_date disb_rows =
     bnd (resurface_pay batch_date) (\<lambda>pay_rows.
     bnd (for_each disb_rows (gen_payments cfg batch_date) pay_rows) (\<lambda>pay_rows.
     bnd (chance (invalid_rate cfg)) (\<lambda>inv.
       if inv then bnd uuid4 (\<lambda>a. ret (pay_rows @ [bad_pay a])) else ret pay_rows)))"

text \<open>
  The body of \<open>for day_idx in range(cfg.num_days)\<close>. The accumulator is unused: all that
  a day leaves behind is in the state.
\<close>

definition day :: "config \<Rightarrow> merchant list \<Rightarrow> nat \<Rightarrow> unit \<Rightarrow> unit gen" where
  "day cfg merchants day_idx acc =
     (let batch_date = start_date cfg + int day_idx;
          bd = fmt_date batch_date
      in
     bnd (merchants_stage cfg merchants) (\<lambda>merch_rows.
     bnd (write_csv (output_dir cfg, ''merchants'', bd) MERCH_HEADERS merch_rows
            (include_header_merch cfg day_idx)) (\<lambda>_.
     bnd (applications_stage cfg batch_date) (\<lambda>apps_rows.
     bnd (write_csv (output_dir cfg, ''applications'', bd) APP_HEADERS apps_rows True) (\<lambda>_.
     bnd (disbursements_stage cfg batch_date apps_rows) (\<lambda>disb_rows.
     bnd (write_csv (output_dir cfg, ''disbursements'', bd) DISB_HEADERS disb_rows
            (include_header_disb cfg day_idx)) (\<lambda>_.
     bnd (payments_stage cfg batch_date disb_rows) (\<lambda>pay_rows.
       write_csv (output_dir cfg, ''payments'', bd) PAY_HEADERS pay_rows True))))))))"

subsection \<open>The run\<close>

text \<open>
  \<open>prng\<close> is the generator of the module \<open>random\<close> (the draws that a seed fixes),
  \<open>urandom\<close> the entropy that \<open>uuid4\<close> reads in this run.
\<close>

definition initial :: "(int \<Rightarrow> nat \<Rightarrow> real) \<Rightarrow> (nat \<Rightarrow> string) \<Rightarrow> config \<Rightarrow> state" where
  "initial prng urandom cfg =
     \<lparr>draws = prng (seed cfg), pos = 0, uuids = urandom, upos = 0, merchant_by_id = [],
      carry_apps = [], carry_pays = [], all_app_ids = [], all_disb_ids = [], fs = []\<rparr>"

definition days :: "config \<Rightarrow> merchant list \<Rightarrow> nat list \<Rightarrow> unit gen" where
  "days cfg merchants ds = for_each ds (day cfg merchants) ()"

definition start :: "config \<Rightarrow> merchant list gen" where
  "start cfg =
     bnd (gen_merchants cfg) (\<lambda>merchants.
     bnd (modify (\<lambda>s. s\<lparr>merchant_by_id :=
            fold (\<lambda>m. AList.update (merchant_id m) m) merchants []\<rparr>)) (\<lambda>_.
       ret merchants))"

definition run :: "config \<Rightarrow> unit gen" where
  "run cfg = bnd (start cfg) (\<lambda>merchants. days cfg merchants (py_range (num_days cfg)))"

text \<open>
  \<open>main\<close> returns the files it wrote, or the exception that ended it. Creating the
  output directory and printing the summary are left out; so are the files that a run has
  written before it raises.
\<close>

definition main :: "(int \<Rightarrow> nat \<Rightarrow> real) \<Rightarrow> (nat \<Rightarrow> string) \<Rightarrow> config \<Rightarrow> error + csv list" where
  "main prng urandom cfg =
     (case run cfg (initial prng urandom cfg) of
        Inl e \<Rightarrow> Inl e
      | Inr (u, s) \<Rightarrow> Inr (fs s))"

subsection \<open>Reasoning about generators\<close>

text \<open>
  \<open>wp m Q s\<close>: if \<open>m\<close> returns from state \<open>s\<close>, then \<open>Q\<close> holds of the result
  and the state it leaves. \<open>keeps g m\<close>: \<open>m\<close> leaves the component \<open>g\<close> of the state
  alone. \<open>src_free g\<close>: \<open>g\<close> does not look at the read positions of the sources.
\<close>

definition wp :: "'a gen \<Rightarrow> ('a \<Rightarrow> state \<Rightarrow> bool) \<Rightarrow> state \<Rightarrow> bool" where
  "wp m Q s = (case m s of Inl e \<Rightarrow> True | Inr (a, s') \<Rightarrow> Q a s')"

definition src_free :: "(state \<Rightarrow> 'x) \<Rightarrow> bool" where
  "src_free g \<longleftrightarrow> (\<forall>s p. g (s\<lparr>pos := p\<rparr>) = g s) \<and> (\<forall>s p. g (s\<lparr>upos := p\<rparr>) = g s)"

definition keeps :: "(state \<Rightarrow> 'x) \<Rightarrow> 'a gen \<Rightarrow> bool" where
  "keeps g m \<longleftrightarrow> (\<forall>s. wp m (\<lambda>a s'. g s' = g s) s)"

subsection \<open>Concrete runs\<close>

text \<open>
  The configuration of the script's entry point (\<open>Config\<close>'s defaults; 739525 is the
  ordinal of 2025-10-01), a generator that returns the same draw for every seed, and two
  entropy streams.
\<close>

definition default_cfg :: config where
  "default_cfg = \<lparr>output_dir = ''./inbox'', start_date = 739525, num_days = 10,
     num_merchants = 50, apps_per_day = 120, disb_rate = 55 / 100, pays_per_disb = 5,
     no_header_every_n_days = 3, duplicate_rate = 3 / 100, invalid_rate = 1 / 100,
     broken_ref_rate = 1 / 100, late_arrival_rate = 8 / 100, seed = 42\<rparr>"

definition quiet_cfg :: config where
  "quiet_cfg = default_cfg\<lparr>duplicate_rate := 0, invalid_rate := 0, broken_ref_rate := 0,
     late_arrival_rate := 0\<rparr>"

definition const_prng :: "real \<Rightarrow> int \<Rightarrow> nat \<Rightarrow> real" where
  "const_prng x sd n = x"

definition entropy_a :: "nat \<Rightarrow> string" where
  "entropy_a n = CHR ''a'' # replicate n (CHR ''x'')"

definition entropy_b :: "nat \<Rightarrow> string" where
  "entropy_b n = CHR ''b'' # replicate n (CHR ''x'')"

text \<open>A generator whose draws are 0 except at positions 7 and 14, where they are 1/2.\<close>

definition drift_prng :: "int \<Rightarrow> nat \<Rightarrow> real" where
  "drift_prng sd n = (if n = 7 \<or> n = 14 then 1 / 2 else 0)"

text \<open>
  A small configuration in which every duplicate draw succeeds and nothing else is injected:
  one merchant, one application a day, one payment per disbursement.
\<close>

definition demo_cfg :: config where
  "demo_cfg = quiet_cfg\<lparr>duplicate_rate := 1, num_merchants := 1, apps_per_day := 1,
     pays_per_disb := 1\<rparr>"

text \<open>The configurations and final states of the runs that the counterexamples use.\<close>

definition no_merchant_cfg :: config where
  "no_merchant_cfg = default_cfg\<lparr>num_days := 1, num_merchants := 0, apps_per_day := 1\<rparr>"

definition one_merchant_cfg :: config where
  "one_merchant_cfg = quiet_cfg\<lparr>num_days := 1, num_merchants := 1, apps_per_day := 0\<rparr>"

definition drift_cfg :: config where
  "drift_cfg = quiet_cfg\<lparr>num_days := 2, num_merchants := 1, apps_per_day := 0\<rparr>"

definition two_apps_cfg :: config where
  "two_apps_cfg = quiet_cfg\<lparr>duplicate_rate := 1, num_days := 1, num_merchants := 1,
     apps_per_day := 2\<rparr>"

definition resurface_cfg :: config where
  "resurface_cfg = quiet_cfg\<lparr>num_days := 2, num_merchants := 1, apps_per_day := 1,
     disb_rate := 0\<rparr>"

definition resurface_end :: state where
  "resurface_end = snd (projr (run resurface_cfg (initial (const_prng 0) entropy_a resurface_cfg)))"

subsection \<open>Predicates of the properties\<close>

text \<open>A risk score cell in [0,1] and a revenue cell above 0, both with two decimals.\<close>

definition risk_in_unit :: "cell \<Rightarrow> bool" where
  "risk_in_unit c = (case c of Dec k n \<Rightarrow> k = 2 \<and> 0 \<le> n \<and> n \<le> 100 | _ \<Rightarrow> False)"

definition revenue_positive :: "cell \<Rightarrow> bool" where
  "revenue_positive c = (case c of Dec k n \<Rightarrow> k = 2 \<and> 0 < n | _ \<Rightarrow> False)"

definition merchant_ok :: "merchant \<Rightarrow> bool" where
  "merchant_ok m \<longleftrightarrow> risk_in_unit (risk_score m) \<and> revenue_positive (annual_revenue m)"

definition merchant_row_ok :: "row \<Rightarrow> bool" where
  "merchant_row_ok r \<longleftrightarrow> length r = 8 \<and> risk_in_unit (r ! 6) \<and> revenue_positive (r ! 4)"

text \<open>
  The merchants that pool construction and any number of mutations can produce, from any
  state of the sources.
\<close>

inductive merchant_reach :: "config \<Rightarrow> merchant \<Rightarrow> bool" for cfg :: config where
  pool: "gen_merchants cfg s = Inr (ms, s') \<Longrightarrow> m \<in> set ms \<Longrightarrow> merchant_reach cfg m"
| drift: "merchant_reach cfg m \<Longrightarrow> mutate_merchant m s = Inr (m', s') \<Longrightarrow> merchant_reach cfg m'"

text \<open>
  What a generation loop appends for one fresh row: the row, and the row once more when the
  duplicate draw succeeded. \<open>dup_flag\<close> is what the configuration forces on that draw.
\<close>

definition emit :: "'a \<times> bool \<Rightarrow> 'a list" where
  "emit p = (if snd p then [fst p, fst p] else [fst p])"

definition dup_flag :: "config \<Rightarrow> bool \<Rightarrow> bool" where
  "dup_flag cfg d \<longleftrightarrow> (1 \<le> duplicate_rate cfg \<longrightarrow> d) \<and> (duplicate_rate cfg \<le> 0 \<longrightarrow> \<not> d)"

text \<open>The value of \<open>random.uniform(a, b)\<close> at the draw \<open>x\<close>.\<close>

definition between :: "real \<Rightarrow> real \<Rightarrow> real \<Rightarrow> real" where
  "between a b x = a + (b - a) * frac x"


text \<open>
  \<open>carried carry s fresh s'\<close>: between the states \<open>s\<close> and \<open>s'\<close> the rows \<open>fresh\<close> were
  generated, each with an identifier read from the entropy at a position between the two
  read positions, and stored in the dictionary \<open>carry\<close>; the other keys were left alone.
\<close>

definition carried :: "(state \<Rightarrow> (cell \<times> row) list) \<Rightarrow> state \<Rightarrow> row list \<Rightarrow> state \<Rightarrow> bool" where
  "carried carry s fresh s' \<longleftrightarrow> uuids s' = uuids s \<and> upos s \<le> upos s' \<and>
     (\<forall>r\<in>set fresh. \<exists>j. upos s \<le> j \<and> j < upos s' \<and> r ! 0 = Str (uuids s j)) \<and>
     (inj (uuids s) \<longrightarrow> (\<forall>r\<in>set fresh. map_of (carry s') (r ! 0) = Some r)) \<and>
     (\<forall>k. k \<notin> (\<lambda>r. r ! 0) ` set fresh \<longrightarrow> map_of (carry s') k = map_of (carry s) k)"

text \<open>An application row whose requested amount is a decimal with two digits, not negative.\<close>

definition requested_ok :: "row \<Rightarrow> bool" where
  "requested_ok r \<longleftrightarrow> 3 < length r \<and> (case r ! 3 of Dec k v \<Rightarrow> k = 2 \<and> 0 \<le> v | _ \<Rightarrow> False)"




section \<open>Properties\<close>

subsection \<open>The calculus\<close>

lemma wpD: "wp m Q s \<Longrightarrow> m s = Inr (a, s') \<Longrightarrow> Q a s'"
  by (simp add: wp_def)


lemma wp_mono: "wp m Q s \<Longrightarrow> (\<And>a s'. Q a s' \<Longrightarrow> R a s') \<Longrightarrow> wp m R s"
  by (auto simp: wp_def split: sum.splits)


lemma wp_ret [simp]: "wp (ret a) Q s = Q a s"
  by (simp add: wp_def ret_def)

lemma wp_raise [simp]: "wp (raise e) Q s = True"
  by (simp add: wp_def raise_def)

lemma wp_bnd [simp]: "wp (bnd m f) Q s = wp m (\<lambda>a. wp (f a) Q) s"
  by (auto simp: wp_def bnd_def split: sum.splits)

lemma wp_modify [simp]: "wp (modify g) Q s = Q () (g s)"
  by (simp add: wp_def modify_def)

lemma wp_gets [simp]: "wp (gets g) Q s = Q (g s) s"
  by (simp add: wp_def gets_def)

lemma wp_random [simp]:
  "wp random_random Q s = Q (frac (draws s (pos s))) (s\<lparr>pos := Suc (pos s)\<rparr>)"
  by (simp add: wp_def random_random_def)

lemma wp_uuid4 [simp]: "wp uuid4 Q s = Q (Str (uuids s (upos s))) (s\<lparr>upos := Suc (upos s)\<rparr>)"
  by (simp add: wp_def uuid4_def)

lemma wp_if [simp]: "wp (if c then m else n) Q s = (if c then wp m Q s else wp n Q s)"
  by simp

lemma wp_case_prod [simp]: "wp (case p of (a, b) \<Rightarrow> f a b) Q s = (case p of (a, b) \<Rightarrow> wp (f a b) Q s)"
  by (simp split: prod.splits)

lemma wp_chance [simp]:
  "wp (chance p) Q s = Q (frac (draws s (pos s)) < p) (s\<lparr>pos := Suc (pos s)\<rparr>)"
  by (simp add: chance_def)

lemma wp_uniform [simp]:
  "wp (uniform a b) Q s = Q (a + (b - a) * frac (draws s (pos s))) (s\<lparr>pos := Suc (pos s)\<rparr>)"
  by (simp add: uniform_def)

lemma wp_randbelow [simp]:
  "wp (randbelow n) Q s =
     Q (nat \<lfloor>frac (draws s (pos s)) * of_nat n\<rfloor>) (s\<lparr>pos := Suc (pos s)\<rparr>)"
  by (simp add: randbelow_def)

lemma wp_randint [simp]:
  "wp (randint a b) Q s =
     Q (a + int (nat \<lfloor>frac (draws s (pos s)) * of_nat (nat (b - a + 1))\<rfloor>))
       (s\<lparr>pos := Suc (pos s)\<rparr>)"
  by (simp add: randint_def)

lemma wp_choice [simp]:
  "wp (choice xs) Q s =
     (xs \<noteq> [] \<longrightarrow> Q (xs ! nat \<lfloor>frac (draws s (pos s)) * of_nat (length xs)\<rfloor>)
        (s\<lparr>pos := Suc (pos s)\<rparr>))"
  by (simp add: choice_def)

lemma wp_getitem [simp]: "wp (getitem xs i) Q s = (i < length xs \<longrightarrow> Q (xs ! i) s)"
  by (simp add: getitem_def)

lemma wp_setitem [simp]: "wp (setitem xs i v) Q s = (i < length xs \<longrightarrow> Q (xs[i := v]) s)"
  by (simp add: setitem_def)

lemma wp_py_float:
  "wp (py_float c) Q s =
     ((\<forall>n. c = Num n \<longrightarrow> Q (of_int n) s) \<and> (\<forall>k n. c = Dec k n \<longrightarrow> Q (of_int n / 10 ^ k) s))"
  by (cases c) simp_all

lemma wp_fromisoformat: "wp (fromisoformat c) Q s = (\<forall>d. c = Date d \<longrightarrow> Q d s)"
  by (cases c) simp_all

lemma wp_for_each:
  assumes "I [] acc s"
    and "\<And>pre x post a t. xs = pre @ x # post \<Longrightarrow> I pre a t \<Longrightarrow> wp (f x a) (I (pre @ [x])) t"
    and "\<And>a t. I xs a t \<Longrightarrow> Q a t"
  shows "wp (for_each xs f acc) Q s"
proof -
  have "I pre acc s \<Longrightarrow> (\<And>p x q a t. pre @ ys = p @ x # q \<Longrightarrow> length pre \<le> length p \<Longrightarrow> I p a t \<Longrightarrow> wp (f x a) (I (p @ [x])) t)
     \<Longrightarrow> wp (for_each ys f acc) (I (pre @ ys)) s" for pre ys
  proof (induction ys arbitrary: pre acc s)
    case Nil
    then show ?case by simp
  next
    case (Cons y ys)
    have step: "wp (f y acc) (I (pre @ [y])) s"
      using Cons.prems(2)[of pre y ys acc s] Cons.prems(1) by simp
    have "wp (for_each ys f a) (I ((pre @ [y]) @ ys)) t" if "I (pre @ [y]) a t" for a t
      apply (rule Cons.IH[OF that])
      using Cons.prems(2) by simp
    then show ?case using step by (auto intro: wp_mono)
  qed
  from this[of "[]" xs] assms(1,2) have "wp (for_each xs f acc) (I xs) s" by simp
  then show ?thesis using assms(3) by (rule wp_mono)
qed

lemma wp_choices [simp]:
  "wp (choices population weights) Q s =
     (let cum = accumulate 0 weights; x = frac (draws s (pos s)) * last cum;
          i = length (filter (\<lambda>c. c \<le> x) (butlast cum))
      in i < length population \<longrightarrow> Q (population ! i) (s\<lparr>pos := Suc (pos s)\<rparr>))"
  by (simp add: choices_def Let_def)


lemma keepsD: "keeps g m \<Longrightarrow> m s = Inr (a, s') \<Longrightarrow> g s' = g s"
  unfolding keeps_def by (blast dest: wpD)

lemma keeps_wp: "keeps g m \<Longrightarrow> wp m (\<lambda>a s'. g s' = g s) s"
  by (simp add: keeps_def)

lemma keeps_ret: "keeps g (ret a)"
  by (simp add: keeps_def)

lemma keeps_raise: "keeps g (raise e)"
  by (simp add: keeps_def)

lemma keeps_bnd: "keeps g m \<Longrightarrow> (\<And>a. keeps g (f a)) \<Longrightarrow> keeps g (bnd m f)"
proof -
  assume m: "keeps g m" and f: "\<And>a. keeps g (f a)"
  have "wp m (\<lambda>a. wp (f a) (\<lambda>b s'. g s' = g s)) s" for s
  proof (rule wp_mono[OF keeps_wp[OF m, of s]])
    fix a t assume "g t = g s"
    then show "wp (f a) (\<lambda>b s'. g s' = g s) t"
      using keeps_wp[OF f, of a t] by simp
  qed
  then show ?thesis by (simp add: keeps_def)
qed

lemma keeps_for_each: "(\<And>x a. keeps g (f x a)) \<Longrightarrow> keeps g (for_each xs f acc)"
  by (induction xs arbitrary: acc) (auto intro: keeps_ret keeps_bnd)

lemma keeps_if: "(c \<Longrightarrow> keeps g m) \<Longrightarrow> (\<not> c \<Longrightarrow> keeps g n) \<Longrightarrow> keeps g (if c then m else n)"
  by simp

lemma keeps_case_prod: "(\<And>a b. keeps g (f a b)) \<Longrightarrow> keeps g (case p of (a, b) \<Rightarrow> f a b)"
  by (cases p) simp

lemma keeps_gets: "keeps g (gets h)"
  by (simp add: keeps_def)

lemma keeps_modify: "(\<And>s. g (h s) = g s) \<Longrightarrow> keeps g (modify h)"
  by (simp add: keeps_def)

lemma keeps_random: "src_free g \<Longrightarrow> keeps g random_random"
  by (simp add: keeps_def src_free_def)

lemma keeps_uuid4: "src_free g \<Longrightarrow> keeps g uuid4"
  by (simp add: keeps_def src_free_def)

lemma keeps_getitem: "keeps g (getitem xs i)"
  by (simp add: keeps_def)

lemma keeps_setitem: "keeps g (setitem xs i v)"
  by (simp add: keeps_def)

lemma keeps_py_float: "keeps g (py_float c)"
  by (simp add: keeps_def wp_py_float)

lemma keeps_fromisoformat: "keeps g (fromisoformat c)"
  by (simp add: keeps_def wp_fromisoformat)

lemmas keeps_basic = keeps_ret keeps_raise keeps_bnd keeps_for_each keeps_if keeps_case_prod
  keeps_gets keeps_random keeps_uuid4 keeps_getitem keeps_setitem keeps_py_float
  keeps_fromisoformat

lemma keeps_chance: "src_free g \<Longrightarrow> keeps g (chance p)"
  unfolding chance_def by (intro keeps_basic)

lemma keeps_uniform: "src_free g \<Longrightarrow> keeps g (uniform a b)"
  unfolding uniform_def by (intro keeps_basic)

lemma keeps_randbelow: "src_free g \<Longrightarrow> keeps g (randbelow n)"
  unfolding randbelow_def by (intro keeps_basic)

lemma keeps_randint: "src_free g \<Longrightarrow> keeps g (randint a b)"
  unfolding randint_def by (intro keeps_basic keeps_randbelow)

lemma keeps_choice: "src_free g \<Longrightarrow> keeps g (choice xs)"
  unfolding choice_def by (intro keeps_basic keeps_randbelow)

lemma keeps_choices: "src_free g \<Longrightarrow> keeps g (choices xs ws)"
  unfolding choices_def Let_def by (intro keeps_basic)

lemma keeps_shuffle: "src_free g \<Longrightarrow> keeps g (shuffle xs)"
  unfolding shuffle_def shuffle_step_def by (intro keeps_basic keeps_randbelow)

lemmas keeps_prims = keeps_basic keeps_chance keeps_uniform keeps_randbelow keeps_randint
  keeps_choice keeps_choices keeps_shuffle

lemma keeps_mutate_merchant: "src_free g \<Longrightarrow> keeps g (mutate_merchant m)"
  unfolding mutate_merchant_def by (intro keeps_prims)

lemma keeps_merchants_stage:
  "src_free g \<Longrightarrow> (\<And>s x. g (s\<lparr>merchant_by_id := x\<rparr>) = g s) \<Longrightarrow> keeps g (merchants_stage cfg ms)"
  unfolding merchants_stage_def snapshot_merchant_def
  by (intro keeps_prims keeps_mutate_merchant keeps_modify) simp_all

lemma keeps_resurface_app: "src_free g \<Longrightarrow> keeps g (resurface_app bd)"
  unfolding resurface_app_def by (intro keeps_prims)

lemma keeps_resurface_pay: "src_free g \<Longrightarrow> keeps g (resurface_pay bd)"
  unfolding resurface_pay_def by (intro keeps_prims)

lemma keeps_applications_stage:
  "src_free g \<Longrightarrow> (\<And>s x y. g (s\<lparr>carry_apps := x, all_app_ids := y\<rparr>) = g s)
     \<Longrightarrow> keeps g (applications_stage cfg bd)"
  unfolding applications_stage_def gen_application_def sample_merch_def Let_def
  by (intro keeps_prims keeps_resurface_app keeps_modify) simp_all

lemma keeps_disbursements_stage:
  "src_free g \<Longrightarrow> (\<And>s x. g (s\<lparr>all_disb_ids := x\<rparr>) = g s)
     \<Longrightarrow> keeps g (disbursements_stage cfg bd apps_rows)"
  unfolding disbursements_stage_def gen_disbursement_def Let_def
  by (intro keeps_prims keeps_modify) simp_all

lemma keeps_payments_stage:
  "src_free g \<Longrightarrow> (\<And>s x. g (s\<lparr>carry_pays := x\<rparr>) = g s)
     \<Longrightarrow> keeps g (payments_stage cfg bd disb_rows)"
  unfolding payments_stage_def gen_payments_def gen_payment_def Let_def
  by (intro keeps_prims keeps_resurface_pay keeps_modify) simp_all

lemma src_free_fields [simp]:
  "src_free fs" "src_free carry_apps" "src_free carry_pays" "src_free all_app_ids"
  "src_free all_disb_ids" "src_free uuids" "src_free draws" "src_free merchant_by_id"
  by (simp_all add: src_free_def)

subsection \<open>The stages of a day and the files it writes\<close>

lemma bnd_Inr:
  "bnd m f s = Inr (b, s'') \<longleftrightarrow> (\<exists>a s'. m s = Inr (a, s') \<and> f a s' = Inr (b, s''))"
  by (auto simp: bnd_def split: sum.splits)

lemma day_stages:
  assumes "day cfg merchants d u s = Inr (u', s')"
  obtains mr s1 ar s2 dr s3 pr s4 where
    "merchants_stage cfg merchants s = Inr (mr, s1)"
    "applications_stage cfg (start_date cfg + int d)
       (s1\<lparr>fs := fs s1 @ [\<lparr>path = (output_dir cfg, ''merchants'', fmt_date (start_date cfg + int d)),
          header = (if include_header_merch cfg d then Some MERCH_HEADERS else None),
          body = mr\<rparr>]\<rparr>) = Inr (ar, s2)"
    "disbursements_stage cfg (start_date cfg + int d) ar
       (s2\<lparr>fs := fs s2 @ [\<lparr>path = (output_dir cfg, ''applications'', fmt_date (start_date cfg + int d)),
          header = Some APP_HEADERS, body = ar\<rparr>]\<rparr>) = Inr (dr, s3)"
    "payments_stage cfg (start_date cfg + int d) dr
       (s3\<lparr>fs := fs s3 @ [\<lparr>path = (output_dir cfg, ''disbursements'', fmt_date (start_date cfg + int d)),
          header = (if include_header_disb cfg d then Some DISB_HEADERS else None),
          body = dr\<rparr>]\<rparr>) = Inr (pr, s4)"
    "s' = s4\<lparr>fs := fs s4 @ [\<lparr>path = (output_dir cfg, ''payments'', fmt_date (start_date cfg + int d)),
          header = Some PAY_HEADERS, body = pr\<rparr>]\<rparr>"
  using assms
  by (auto simp: day_def Let_def bnd_Inr write_csv_def modify_def)

lemma day_files:
  assumes "day cfg merchants d u s = Inr (u', s')"
  obtains mr s1 ar s2 dr s3 pr s4 where
    "merchants_stage cfg merchants s = Inr (mr, s1)"
    "applications_stage cfg (start_date cfg + int d)
       (s1\<lparr>fs := fs s1 @ [\<lparr>path = (output_dir cfg, ''merchants'', fmt_date (start_date cfg + int d)),
          header = (if include_header_merch cfg d then Some MERCH_HEADERS else None),
          body = mr\<rparr>]\<rparr>) = Inr (ar, s2)"
    "disbursements_stage cfg (start_date cfg + int d) ar
       (s2\<lparr>fs := fs s2 @ [\<lparr>path = (output_dir cfg, ''applications'', fmt_date (start_date cfg + int d)),
          header = Some APP_HEADERS, body = ar\<rparr>]\<rparr>) = Inr (dr, s3)"
    "payments_stage cfg (start_date cfg + int d) dr
       (s3\<lparr>fs := fs s3 @ [\<lparr>path = (output_dir cfg, ''disbursements'', fmt_date (start_date cfg + int d)),
          header = (if include_header_disb cfg d then Some DISB_HEADERS else None),
          body = dr\<rparr>]\<rparr>) = Inr (pr, s4)"
    "s' = s4\<lparr>fs := fs s4 @ [\<lparr>path = (output_dir cfg, ''payments'', fmt_date (start_date cfg + int d)),
          header = Some PAY_HEADERS, body = pr\<rparr>]\<rparr>"
    "fs s' = fs s @
       [\<lparr>path = (output_dir cfg, ''merchants'', fmt_date (start_date cfg + int d)),
          header = (if include_header_merch cfg d then Some MERCH_HEADERS else None),
          body = mr\<rparr>,
        \<lparr>path = (output_dir cfg, ''applications'', fmt_date (start_date cfg + int d)),
          header = Some APP_HEADERS, body = ar\<rparr>,
        \<lparr>path = (output_dir cfg, ''disbursements'', fmt_date (start_date cfg + int d)),
          header = (if include_header_disb cfg d then Some DISB_HEADERS else None),
          body = dr\<rparr>,
        \<lparr>path = (output_dir cfg, ''payments'', fmt_date (start_date cfg + int d)),
          header = Some PAY_HEADERS, body = pr\<rparr>]"
proof -
  from assms obtain mr s1 ar s2 dr s3 pr s4 where st:
    "merchants_stage cfg merchants s = Inr (mr, s1)"
    "applications_stage cfg (start_date cfg + int d)
       (s1\<lparr>fs := fs s1 @ [\<lparr>path = (output_dir cfg, ''merchants'', fmt_date (start_date cfg + int d)),
          header = (if include_header_merch cfg d then Some MERCH_HEADERS else None),
          body = mr\<rparr>]\<rparr>) = Inr (ar, s2)"
    "disbursements_stage cfg (start_date cfg + int d) ar
       (s2\<lparr>fs := fs s2 @ [\<lparr>path = (output_dir cfg, ''applications'', fmt_date (start_date cfg + int d)),
          header = Some APP_HEADERS, body = ar\<rparr>]\<rparr>) = Inr (dr, s3)"
    "payments_stage cfg (start_date cfg + int d) dr
       (s3\<lparr>fs := fs s3 @ [\<lparr>path = (output_dir cfg, ''disbursements'', fmt_date (start_date cfg + int d)),
          header = (if include_header_disb cfg d then Some DISB_HEADERS else None),
          body = dr\<rparr>]\<rparr>) = Inr (pr, s4)"
    "s' = s4\<lparr>fs := fs s4 @ [\<lparr>path = (output_dir cfg, ''payments'', fmt_date (start_date cfg + int d)),
          header = Some PAY_HEADERS, body = pr\<rparr>]\<rparr>"
    by (rule day_stages)
  have "fs s1 = fs s"
    using keepsD[OF keeps_merchants_stage st(1), of fs] by simp
  moreover have "fs s2 = fs s1 @ [\<lparr>path = (output_dir cfg, ''merchants'', fmt_date (start_date cfg + int d)),
          header = (if include_header_merch cfg d then Some MERCH_HEADERS else None),
          body = mr\<rparr>]"
    using keepsD[OF keeps_applications_stage st(2), of fs] by simp
  moreover have "fs s3 = fs s2 @ [\<lparr>path = (output_dir cfg, ''applications'', fmt_date (start_date cfg + int d)),
          header = Some APP_HEADERS, body = ar\<rparr>]"
    using keepsD[OF keeps_disbursements_stage st(3), of fs] by simp
  moreover have "fs s4 = fs s3 @ [\<lparr>path = (output_dir cfg, ''disbursements'', fmt_date (start_date cfg + int d)),
          header = (if include_header_disb cfg d then Some DISB_HEADERS else None),
          body = dr\<rparr>]"
    using keepsD[OF keeps_payments_stage st(4), of fs] by simp
  ultimately have "fs s' = fs s @
       [\<lparr>path = (output_dir cfg, ''merchants'', fmt_date (start_date cfg + int d)),
          header = (if include_header_merch cfg d then Some MERCH_HEADERS else None),
          body = mr\<rparr>,
        \<lparr>path = (output_dir cfg, ''applications'', fmt_date (start_date cfg + int d)),
          header = Some APP_HEADERS, body = ar\<rparr>,
        \<lparr>path = (output_dir cfg, ''disbursements'', fmt_date (start_date cfg + int d)),
          header = (if include_header_disb cfg d then Some DISB_HEADERS else None),
          body = dr\<rparr>,
        \<lparr>path = (output_dir cfg, ''payments'', fmt_date (start_date cfg + int d)),
          header = Some PAY_HEADERS, body = pr\<rparr>]"
    using st(5) by simp
  with st show ?thesis by (rule that)
qed

lemmas stage_defs = main_def run_def start_def days_def day_def initial_def gen_merchants_def py_range_def
  merchants_stage_def applications_stage_def resurface_app_def gen_application_def write_csv_def
  disbursements_stage_def payments_stage_def resurface_pay_def gen_merchant_def snapshot_merchant_def
  mutate_merchant_def shuffle_def shuffle_step_def gen_disbursement_def gen_payments_def gen_payment_def
  sample_merch_def

lemmas monad_defs = bnd_def ret_def raise_def modify_def gets_def random_random_def uuid4_def

lemmas prim_defs = chance_def uniform_def randbelow_def randint_def choice_def getitem_def
  setitem_def choices_def

lemmas value_defs = round_half_even_def py_round_def fmt_dec_def clamp_def fmt_date_def fmt_ts_def
  include_header_merch_def include_header_disb_def merchant_row_def zfill4_def str_nat.simps
  py_int_def frac_def INDUSTRIES_def STATES_def PURPOSES_def SCHEDULES_def PAY_METHODS_def
  bad_merchant_def bad_app_def bad_disb_def bad_pay_def is_approved_def

lemma replicate_numeral_eval: "replicate (numeral k) x = x # replicate (pred_numeral k) x"
  by (simp add: numeral_eq_Suc)

lemmas eval_simps = replicate_numeral_eval upt_rec

lemmas cfg_defs = no_merchant_cfg_def one_merchant_cfg_def drift_cfg_def two_apps_cfg_def
  resurface_cfg_def default_cfg_def quiet_cfg_def const_prng_def entropy_a_def entropy_b_def
  drift_prng_def

lemmas eval_defs = cfg_defs stage_defs prim_defs monad_defs value_defs eval_simps Let_def

subsection \<open>Rounding, and the bounds of merchants\<close>

lemma round_half_even_ge: "of_int n \<le> x \<Longrightarrow> n \<le> round_half_even x"
proof -
  assume "of_int n \<le> x"
  then have "n \<le> \<lfloor>x\<rfloor>" by (simp add: le_floor_iff)
  then show ?thesis by (simp add: round_half_even_def Let_def)
qed

lemma round_half_even_le: "x \<le> of_int n \<Longrightarrow> round_half_even x \<le> n"
proof -
  assume x: "x \<le> of_int n"
  then have f: "\<lfloor>x\<rfloor> \<le> n" by (simp add: floor_le_iff)
  show ?thesis
  proof (cases "\<lfloor>x\<rfloor> = n")
    case True
    then have "x - of_int \<lfloor>x\<rfloor> \<le> 0" using x by simp
    then show ?thesis using True by (simp add: round_half_even_def Let_def)
  next
    case False
    then have "\<lfloor>x\<rfloor> + 1 \<le> n" using f by simp
    then show ?thesis using f by (simp add: round_half_even_def Let_def)
  qed
qed

lemma round_half_even_of_int [simp]: "round_half_even (of_int n) = n"
  by (simp add: round_half_even_def)

lemma fmt_dec_py_round [simp]: "fmt_dec k (py_round x k) = fmt_dec k x"
  by (simp add: fmt_dec_def py_round_def)

lemma frac_bounds: "0 \<le> frac (x::real)" "frac x < 1" "frac x \<le> 1"
  using frac_lt_1[of x] by simp_all

lemma randbelow_lt: "0 < n \<Longrightarrow> nat \<lfloor>frac (x::real) * of_nat n\<rfloor> < n"
proof -
  assume n: "0 < n"
  have "frac x * of_nat n < of_nat n"
    using frac_lt_1[of x] n by simp
  then have "\<lfloor>frac x * of_nat n\<rfloor> < int n"
    by (simp add: floor_less_iff)
  moreover have "0 \<le> \<lfloor>frac x * of_nat n\<rfloor>" by simp
  ultimately show ?thesis by linarith
qed

lemma risk_in_unit_fmt: "0 \<le> x \<Longrightarrow> x \<le> 1 \<Longrightarrow> risk_in_unit (fmt_dec 2 x)"
  using round_half_even_ge[of 0 "x * 100"] round_half_even_le[of "x * 100" 100]
  by (simp add: risk_in_unit_def fmt_dec_def)

lemma revenue_positive_fmt: "1 \<le> x \<Longrightarrow> revenue_positive (fmt_dec 2 x)"
  using round_half_even_ge[of 100 "x * 100"]
  by (simp add: revenue_positive_def fmt_dec_def)

lemma gen_merchant_ok:
  "wp (gen_merchant cfg i ms) (\<lambda>ms' s'. \<exists>m. ms' = ms @ [m] \<and> merchant_ok m) s"
proof -
  have u: "1 \<le> 50000 + 4950000 * frac x" for x :: real
    using frac_ge_0[of x] by linarith
  show ?thesis
    by (simp add: gen_merchant_def Let_def merchant_ok_def risk_in_unit_fmt revenue_positive_fmt
        clamp_def frac_bounds u)
qed

lemma gen_merchants_ok:
  "wp (gen_merchants cfg) (\<lambda>ms s'. \<forall>m\<in>set ms. merchant_ok m) s"
  unfolding gen_merchants_def
proof (rule wp_for_each[where I = "\<lambda>pre ms s'. \<forall>m\<in>set ms. merchant_ok m"])
  fix pre x post a t
  assume "\<forall>m\<in>set a. merchant_ok m"
  then show "wp (gen_merchant cfg x a) (\<lambda>ms s'. \<forall>m\<in>set ms. merchant_ok m) t"
    by (intro wp_mono[OF gen_merchant_ok]) auto
qed simp_all

lemma mutate_merchant_ok:
  "merchant_ok m \<Longrightarrow> wp (mutate_merchant m) (\<lambda>m' s'. merchant_ok m') s"
  by (auto simp: mutate_merchant_def wp_py_float merchant_ok_def risk_in_unit_fmt
      revenue_positive_fmt clamp_def)

lemma merchant_reach_ok: "merchant_reach cfg m \<Longrightarrow> merchant_ok m"
proof (induction rule: merchant_reach.induct)
  case (pool s ms s' m)
  then show ?case using wpD[OF gen_merchants_ok] by blast
next
  case (drift m s m' s')
  then show ?case using wpD[OF mutate_merchant_ok] by blast
qed

lemma merchant_row_ok: "merchant_ok m \<Longrightarrow> merchant_row_ok (merchant_row m)"
  by (simp add: merchant_ok_def merchant_row_ok_def merchant_row_def)

lemma snapshot_merchant_ok:
  "merchant_ok m \<Longrightarrow>
   wp (snapshot_merchant m rows) (\<lambda>rows' s'. \<exists>r. rows' = rows @ [r] \<and> merchant_row_ok r) s"
  unfolding snapshot_merchant_def
  apply (simp add: merchant_row_ok)
  apply (intro impI wp_mono[OF mutate_merchant_ok])
   apply (simp_all add: merchant_row_ok)
  done

lemma pick_mem: "xs \<noteq> [] \<Longrightarrow> xs ! nat \<lfloor>frac (x::real) * of_nat (length xs)\<rfloor> \<in> set xs"
  by (simp add: randbelow_lt)

lemma snapshot_loop_ok:
  assumes "\<forall>m\<in>set ms. merchant_ok m"
  shows "wp (for_each ms snapshot_merchant []) (\<lambda>rows s'. \<forall>r\<in>set rows. merchant_row_ok r) s"
proof (rule wp_for_each[where I = "\<lambda>pre rows s'. \<forall>r\<in>set rows. merchant_row_ok r"])
  fix pre x post a t
  assume "ms = pre @ x # post" and a: "\<forall>r\<in>set a. merchant_row_ok r"
  then have "merchant_ok x" using assms by simp
  from wp_mono[OF snapshot_merchant_ok[OF this]] a
  show "wp (snapshot_merchant x a) (\<lambda>rows s'. \<forall>r\<in>set rows. merchant_row_ok r) t"
    by (intro wp_mono[OF snapshot_merchant_ok[OF \<open>merchant_ok x\<close>]]) auto
qed simp_all

lemma merchants_stage_ok:
  assumes "\<forall>m\<in>set ms. merchant_ok m"
  shows "wp (merchants_stage cfg ms) (\<lambda>rows s'. \<forall>r\<in>set rows. r = bad_merchant \<or> merchant_row_ok r) s"
  unfolding merchants_stage_def
  apply (simp only: wp_bnd)
  apply (rule wp_mono[OF snapshot_loop_ok[OF assms]])
  subgoal for a t
    using pick_mem[of a "draws t (Suc (pos t))"] by auto
  done

lemma start_ok: "start cfg s = Inr (ms, s1) \<Longrightarrow> \<forall>m\<in>set ms. merchant_ok m"
  using wpD[OF gen_merchants_ok, of cfg s]
  by (auto simp: start_def bnd_Inr modify_def ret_def)

subsection \<open>The generation loops\<close>

lemma wp_loop_emit:
  assumes init: "J [] [] s"
    and body: "\<And>pre x post rows frs t. xs = pre @ x # post \<Longrightarrow> J pre frs t \<Longrightarrow>
        wp (f x rows) (\<lambda>rows' t'. \<exists>blk. rows' = rows @ concat (map emit blk) \<and>
              J (pre @ [x]) (frs @ blk) t') t"
  shows "wp (for_each xs f rows)
           (\<lambda>rows' s'. \<exists>frs. rows' = rows @ concat (map emit frs) \<and> J xs frs s') s"
proof (rule wp_for_each[where I = "\<lambda>pre rows' t. \<exists>frs. rows' = rows @ concat (map emit frs) \<and> J pre frs t"])
  show "\<exists>frs. rows = rows @ concat (map emit frs) \<and> J [] frs s"
    using init by (intro exI[of _ "[]"]) simp
next
  fix pre x post a t
  assume xs: "xs = pre @ x # post"
    and "\<exists>frs. a = rows @ concat (map emit frs) \<and> J pre frs t"
  then obtain frs where a: "a = rows @ concat (map emit frs)" and J: "J pre frs t" by blast
  show "wp (f x a) (\<lambda>rows' t'. \<exists>frs. rows' = rows @ concat (map emit frs) \<and> J (pre @ [x]) frs t') t"
  proof (rule wp_mono[OF body[OF xs J, of a]])
    fix rows' t'
    assume "\<exists>blk. rows' = a @ concat (map emit blk) \<and> J (pre @ [x]) (frs @ blk) t'"
    then obtain blk where "rows' = a @ concat (map emit blk)" "J (pre @ [x]) (frs @ blk) t'"
      by blast
    then show "\<exists>frs. rows' = rows @ concat (map emit frs) \<and> J (pre @ [x]) frs t'"
      using a by (intro exI[of _ "frs @ blk"]) simp
  qed
qed simp

lemma dup_flag_chance: "dup_flag cfg (frac (x::real) < duplicate_rate cfg)"
proof -
  have "0 \<le> frac x" "frac x < 1" by (simp_all add: frac_lt_1)
  then show ?thesis unfolding dup_flag_def by linarith
qed

lemma emit_simps [simp]: "emit (r, True) = [r, r]" "emit (r, False) = [r]"
  by (simp_all add: emit_def)

lemma if_emit: "(if d then rows @ [r, r] else rows @ [r]) = rows @ emit (r, d)"
  by simp

lemma dup_flag_True: "frac (x::real) < duplicate_rate cfg \<Longrightarrow> dup_flag cfg True"
  using dup_flag_chance[of cfg x] by simp

lemma dup_flag_False: "\<not> frac (x::real) < duplicate_rate cfg \<Longrightarrow> dup_flag cfg False"
  using dup_flag_chance[of cfg x] by simp

lemma wp_uniform_between:
  "wp (uniform a b) Q s = Q (between a b (draws s (pos s))) (s\<lparr>pos := Suc (pos s)\<rparr>)"
  by (simp add: between_def)

lemma between_bounds: "a \<le> b \<Longrightarrow> a \<le> between a b x \<and> between a b x \<le> b"
proof -
  assume ab: "a \<le> b"
  have f: "0 \<le> frac x" "frac x \<le> 1" using frac_lt_1[of x] by simp_all
  have "0 \<le> (b - a) * frac x" using ab f by simp
  moreover have "(b - a) * frac x \<le> (b - a) * 1"
    using ab f by (intro mult_left_mono) simp_all
  ultimately show ?thesis by (simp add: between_def)
qed

lemma fmt_dec_nonneg: "0 \<le> x \<Longrightarrow> \<exists>v. fmt_dec k x = Dec k v \<and> 0 \<le> v"
  using round_half_even_ge[of 0 "x * 10 ^ k"] by (simp add: fmt_dec_def)


text \<open>The effect of one pass of each generation loop.\<close>

lemma gen_application_spec:
  "wp (gen_application cfg bd i rows)
     (\<lambda>rows' s'. \<exists>row dup. rows' = rows @ emit (row, dup) \<and> dup_flag cfg dup \<and>
        length row = 8 \<and> row ! 0 = Str (uuids s (upos s)) \<and>
        (\<exists>v. row ! 3 = Dec 2 v \<and> 0 \<le> v) \<and>
        carry_apps s' = AList.update (row ! 0) row (carry_apps s) \<and>
        all_app_ids s' = all_app_ids s @ [row ! 0] \<and>
        upos s' = Suc (upos s) \<and> uuids s' = uuids s) s"
  (is "wp _ (\<lambda>rows' s'. \<exists>row dup. ?Q row dup rows' s') s")
proof -
  have v: "\<exists>v. fmt_dec 2 (between 5000 250000 x) = Dec 2 v \<and> 0 \<le> v" for x
    using between_bounds[of 5000 250000 x] by (intro fmt_dec_nonneg) simp
  have "wp (gen_application cfg bd i rows)
     (\<lambda>rows' s'. ?Q (hd (drop (length rows) rows')) (length rows' = length rows + 2) rows' s') s"
    unfolding gen_application_def sample_merch_def
    by (simp add: Let_def dup_flag_True dup_flag_False v wp_uniform_between del: wp_uniform)
  then show ?thesis by (rule wp_mono) blast
qed


lemma gen_payment_spec:
  "wp (gen_payment cfg bd disb_row disb_id merch_id disb_date k rows)
     (\<lambda>rows' s'. \<exists>row dup. rows' = rows @ emit (row, dup) \<and> dup_flag cfg dup \<and>
        length row = 9 \<and> row ! 0 = Str (uuids s (upos s)) \<and> row ! 2 = merch_id \<and>
        row ! 3 = fmt_date (disb_date + (int k + 1) * 7) \<and>
        carry_pays s' = AList.update (row ! 0) row (carry_pays s) \<and>
        upos s < upos s' \<and> uuids s' = uuids s) s"
  (is "wp _ (\<lambda>rows' s'. \<exists>row dup. ?Q row dup rows' s') s")
proof -
  have "wp (gen_payment cfg bd disb_row disb_id merch_id disb_date k rows)
     (\<lambda>rows' s'. ?Q (hd (drop (length rows) rows')) (length rows' = length rows + 2) rows' s') s"
    unfolding gen_payment_def
    by (simp add: Let_def dup_flag_True dup_flag_False wp_uniform_between wp_py_float
        PAY_METHODS_def del: wp_uniform)
  then show ?thesis by (rule wp_mono) blast
qed

subsection \<open>The shape of the four row sets\<close>

lemma length_py_range [simp]: "length (py_range n) = nat n"
  by (simp add: py_range_def)

lemma chance_nonpos: "p \<le> 0 \<Longrightarrow> \<not> frac (x::real) < p"
  using frac_ge_0[of x] by linarith


lemma wp_invalid_tail:
  assumes "\<And>inv. inv = [] \<or> inv = [bad] \<Longrightarrow> (p \<le> 0 \<longrightarrow> inv = []) \<Longrightarrow>
             Q (rows @ inv) (s\<lparr>pos := Suc (pos s)\<rparr>)"
  shows "wp (bnd (chance p) (\<lambda>inv. ret (if inv then rows @ [bad] else rows))) Q s"
  using assms[of "[bad]"] assms[of "[]"] chance_nonpos[of p "draws s (pos s)"]
  by auto

lemma wp_bnd_rule: "wp m Q s \<Longrightarrow> (\<And>a s'. Q a s' \<Longrightarrow> wp (f a) R s') \<Longrightarrow> wp (bnd m f) R s"
  by (simp only: wp_bnd) (rule wp_mono)



lemma resurface_app_shape:
  "wp (resurface_app bd)
     (\<lambda>res s'. length res \<le> 1 \<and> carry_apps s' = carry_apps s \<and> upos s' = upos s \<and>
        uuids s' = uuids s \<and>
        (\<forall>r\<in>set res. \<exists>k old m. (k, old) \<in> set (carry_apps s) \<and> 7 < length old \<and>
           r = old[5 := (if old ! 5 = Str ''PENDING'' then Str ''APPROVED'' else old ! 5),
                   7 := fmt_ts bd 2 m])) s"
  unfolding resurface_app_def
  apply (simp split: prod.splits)
  apply (intro impI allI)
  subgoal for k old
    using pick_mem[of "carry_apps s" "draws s (Suc (pos s))"] by auto
  done









lemma wp_invalid_pay_tail:
  assumes "\<And>inv s'. inv = [] \<or> (\<exists>a. inv = [bad_pay a]) \<Longrightarrow> (p \<le> 0 \<longrightarrow> inv = []) \<Longrightarrow>
             all_disb_ids s' = all_disb_ids s \<Longrightarrow> carry_pays s' = carry_pays s \<Longrightarrow>
             uuids s' = uuids s \<Longrightarrow> upos s \<le> upos s' \<Longrightarrow>
             Q (rows @ inv) s'"
  shows "wp (bnd (chance p) (\<lambda>inv. if inv then bnd uuid4 (\<lambda>a. ret (rows @ [bad_pay a]))
            else ret rows)) Q s"
  using assms[of "[]" "s\<lparr>pos := Suc (pos s)\<rparr>"]
    assms[of "[bad_pay (Str (uuids s (upos s)))]" "s\<lparr>pos := Suc (pos s), upos := Suc (upos s)\<rparr>"]
    chance_nonpos[of p "draws s (pos s)"]
  by auto





lemma resurface_pay_shape:
  "wp (resurface_pay bd)
     (\<lambda>res s'. length res \<le> 1 \<and> carry_pays s' = carry_pays s \<and> upos s' = upos s \<and>
        uuids s' = uuids s) s"
  unfolding resurface_pay_def
  by (simp add: wp_py_float wp_uniform_between split: prod.splits del: wp_uniform)


subsection \<open>The shape of a day\<close>




lemma bad_app_not_approved [simp]: "\<not> is_approved bad_app"
  by (simp add: is_approved_def bad_app_def)






text \<open>One day of the small configuration, from the state that \<open>start\<close> leaves.\<close>

lemma demo_day:
  "\<exists>ms s0 s'. start demo_cfg (initial (const_prng (1 / 2)) entropy_a demo_cfg) = Inr (ms, s0) \<and>
     day demo_cfg ms 0 () s0 = Inr ((), s')"
proof -
  have "\<exists>s'. bnd (start demo_cfg) (\<lambda>ms. day demo_cfg ms 0 ())
      (initial (const_prng (1 / 2)) entropy_a demo_cfg) = Inr ((), s')"
    by (simp add: demo_cfg_def eval_defs)
  then show ?thesis by (auto simp: bnd_Inr)
qed

lemma demo_cfg_simps:
  "duplicate_rate demo_cfg = 1" "invalid_rate demo_cfg = 0" "disb_rate demo_cfg = 55 / 100"
  "nat (apps_per_day demo_cfg) = 1" "nat (pays_per_disb demo_cfg) = 1"
  by (simp_all add: demo_cfg_def cfg_defs)


subsection \<open>The carry state\<close>

lemma carried_idle:
  "uuids s' = uuids s \<Longrightarrow> upos s \<le> upos s' \<Longrightarrow> carry s' = carry s \<Longrightarrow> carried carry s [] s'"
  by (simp add: carried_def)

lemma carried_trans:
  assumes a: "carried carry s f1 s1" and b: "carried carry s1 f2 s2"
  shows "carried carry s (f1 @ f2) s2"
proof -
  have u: "uuids s1 = uuids s" "uuids s2 = uuids s" "upos s \<le> upos s1" "upos s1 \<le> upos s2"
    using a b by (simp_all add: carried_def)
  have p1: "\<exists>j. upos s \<le> j \<and> j < upos s1 \<and> r ! 0 = Str (uuids s j)" if "r \<in> set f1" for r
    using a that by (simp add: carried_def)
  have p2: "\<exists>j. upos s1 \<le> j \<and> j < upos s2 \<and> r ! 0 = Str (uuids s j)" if "r \<in> set f2" for r
    using b that u by (simp add: carried_def)
  have fr1: "map_of (carry s1) k = map_of (carry s) k" if "k \<notin> (\<lambda>r. r ! 0) ` set f1" for k
    using a that by (simp add: carried_def)
  have fr2: "map_of (carry s2) k = map_of (carry s1) k" if "k \<notin> (\<lambda>r. r ! 0) ` set f2" for k
    using b that by (simp add: carried_def)
  have pos: "\<forall>r\<in>set (f1 @ f2). \<exists>j. upos s \<le> j \<and> j < upos s2 \<and> r ! 0 = Str (uuids s j)"
  proof
    fix r assume "r \<in> set (f1 @ f2)"
    then consider "r \<in> set f1" | "r \<in> set f2" by auto
    then show "\<exists>j. upos s \<le> j \<and> j < upos s2 \<and> r ! 0 = Str (uuids s j)"
    proof cases
      case 1
      from p1[OF this] u show ?thesis by (meson less_le_trans)
    next
      case 2
      from p2[OF this] u show ?thesis by (meson le_trans)
    qed
  qed
  have ent: "\<forall>r\<in>set (f1 @ f2). map_of (carry s2) (r ! 0) = Some r" if inj: "inj (uuids s)"
  proof
    fix r assume "r \<in> set (f1 @ f2)"
    then consider "r \<in> set f2" | "r \<in> set f1" "r ! 0 \<notin> (\<lambda>r. r ! 0) ` set f2"
      | "r \<in> set f1" "r ! 0 \<in> (\<lambda>r. r ! 0) ` set f2" by auto
    then show "map_of (carry s2) (r ! 0) = Some r"
    proof cases
      case 1
      then show ?thesis using b inj u by (simp add: carried_def)
    next
      case 2
      have "map_of (carry s1) (r ! 0) = Some r" using a inj 2(1) by (simp add: carried_def)
      with fr2[OF 2(2)] show ?thesis by simp
    next
      case 3
      then obtain r2 where r2: "r2 \<in> set f2" "r ! 0 = r2 ! 0" by auto
      from p1[OF 3(1)] obtain j where j: "j < upos s1" "r ! 0 = Str (uuids s j)" by blast
      from p2[OF r2(1)] obtain j2 where j2: "upos s1 \<le> j2" "r2 ! 0 = Str (uuids s j2)" by blast
      from j j2 r2(2) have "uuids s j = uuids s j2" by simp
      with inj have "j = j2" by (simp add: inj_eq)
      with j(1) j2(1) show ?thesis by simp
    qed
  qed
  have frame: "\<forall>k. k \<notin> (\<lambda>r. r ! 0) ` set (f1 @ f2) \<longrightarrow> map_of (carry s2) k = map_of (carry s) k"
    using fr1 fr2 by (simp add: image_Un)
  show ?thesis
    unfolding carried_def using u pos ent frame by (simp del: set_append)
qed

lemma carried_step:
  assumes "row ! 0 = Str (uuids s (upos s))" and "upos s < upos s'" and "uuids s' = uuids s"
    and "carry s' = AList.update (row ! 0) row (carry s)"
  shows "carried carry s [row] s'"
  using assms by (auto simp: carried_def update_conv')

lemma applications_loop_carried:
  "wp (for_each xs (gen_application cfg bd) rows)
     (\<lambda>rows' s'. \<exists>frs. rows' = rows @ concat (map emit frs) \<and>
        length frs = length xs \<and> carried carry_apps s (map fst frs) s') s"
  apply (rule wp_loop_emit[where J = "\<lambda>pre frs t. length frs = length pre \<and>
      carried carry_apps s (map fst frs) t"])
   apply (simp add: carried_idle)
  apply (rule wp_mono[OF gen_application_spec])
  apply (elim exE conjE)
  subgoal for pre x post rows frs t rows' t' row dup
    apply (rule exI[of _ "[(row, dup)]"])
    using carried_trans[of carry_apps s "map fst frs" t "[row]" t']
      carried_step[of row t t' carry_apps]
    by simp
  done

lemma applications_stage_carried:
  "wp (applications_stage cfg bd)
     (\<lambda>A s'. \<exists>res frs extra. A = res @ concat (map emit frs) @ extra \<and> length res \<le> 1 \<and>
        length frs = nat (apps_per_day cfg) \<and> length extra \<le> 1 \<and>
        carried carry_apps s (map fst frs) s') s"
  unfolding applications_stage_def
  apply (rule wp_bnd_rule[OF resurface_app_shape])
  apply (rule wp_bnd_rule[OF applications_loop_carried])
  apply (elim exE conjE)
  subgoal for res s1 A s2 frs
    apply (rule wp_invalid_tail)
    subgoal for extra
      apply (rule exI[of _ res], rule exI[of _ frs], rule exI[of _ extra])
      using carried_trans[OF carried_idle[of s1 s carry_apps], of "map fst frs" s2]
      by (auto simp: carried_def)
    done
  done

lemma payments_inner_carried:
  "wp (for_each xs (gen_payment cfg bd dr did mid dd) rows)
     (\<lambda>rows' s'. \<exists>frs. rows' = rows @ concat (map emit frs) \<and>
        carried carry_pays s (map fst frs) s') s"
  apply (rule wp_loop_emit[where J = "\<lambda>pre frs t. carried carry_pays s (map fst frs) t"])
   apply (simp add: carried_idle)
  apply (rule wp_mono[OF gen_payment_spec])
  apply (elim exE conjE)
  subgoal for pre x post rows frs t rows' t' row dup
    apply (rule exI[of _ "[(row, dup)]"])
    using carried_trans[of carry_pays s "map fst frs" t "[row]" t']
      carried_step[of row t t' carry_pays]
    by simp
  done

lemma gen_payments_carried:
  "wp (gen_payments cfg bd dr rows)
     (\<lambda>rows' s'. \<exists>frs. rows' = rows @ concat (map emit frs) \<and>
        carried carry_pays s (map fst frs) s') s"
  unfolding gen_payments_def
  apply (simp add: wp_fromisoformat)
  apply (intro impI allI)
  apply (rule payments_inner_carried)
  done

lemma payments_loop_carried:
  "wp (for_each D (gen_payments cfg bd) rows)
     (\<lambda>rows' s'. \<exists>frs. rows' = rows @ concat (map emit frs) \<and>
        carried carry_pays s (map fst frs) s') s"
  apply (rule wp_loop_emit[where J = "\<lambda>pre frs t. carried carry_pays s (map fst frs) t"])
   apply (simp add: carried_idle)
  apply (rule wp_mono[OF gen_payments_carried])
  apply (elim exE conjE)
  subgoal for pre x post rows frs t rows' t' blk
    apply (rule exI[of _ blk])
    using carried_trans[of carry_pays s "map fst frs" t "map fst blk" t']
    by simp
  done

lemma payments_stage_carried:
  "wp (payments_stage cfg bd D)
     (\<lambda>P s'. \<exists>res frs extra. P = res @ concat (map emit frs) @ extra \<and> length res \<le> 1 \<and>
        length extra \<le> 1 \<and> carried carry_pays s (map fst frs) s') s"
  unfolding payments_stage_def
  apply (rule wp_bnd_rule[OF resurface_pay_shape])
  apply (rule wp_bnd_rule[OF payments_loop_carried])
  apply (elim exE conjE)
  subgoal for res s1 P s2 frs
    apply (rule wp_invalid_pay_tail)
    subgoal for extra s3
      apply (rule exI[of _ res], rule exI[of _ frs], rule exI[of _ extra])
      using carried_trans[OF carried_trans[OF carried_idle[of s1 s carry_pays], of "map fst frs" s2]
          carried_idle[of s3 s2 carry_pays]]
      by auto
    done
  done

lemma inj_entropy_a: "inj entropy_a"
proof (rule injI)
  fix x y assume "entropy_a x = entropy_a y"
  then have "length (entropy_a x) = length (entropy_a y)" by simp
  then show "x = y" by (simp add: entropy_a_def)
qed

lemma start_uuids: "start cfg s = Inr (ms, s0) \<Longrightarrow> uuids s0 = uuids s"
  using keepsD[of uuids "start cfg" s ms s0]
  unfolding start_def gen_merchants_def gen_merchant_def Let_def
  by (simp add: keeps_prims keeps_modify)

subsection \<open>Requested and disbursed amounts\<close>



lemma bad_app_not_ok [simp]: "\<not> requested_ok bad_app"
  by (simp add: requested_ok_def bad_app_def)












subsection \<open>Concrete runs\<close>

lemma drift_run:
  "\<exists>files. main drift_prng entropy_a drift_cfg = Inr files \<and>
     body (files ! 0) ! 0 ! 4 = Dec 2 4750000 \<and> body (files ! 4) ! 0 ! 4 = Dec 2 5000000"
  by (simp add: eval_defs)


lemma resurface_run:
  "\<exists>u s'. run resurface_cfg (initial (const_prng 0) entropy_a resurface_cfg) = Inr (u, s') \<and>
     hd (body (fs s' ! 5)) ! 5 = Str ''APPROVED'' \<and>
     the (map_of (carry_apps s') (hd (body (fs s' ! 5)) ! 0)) ! 5 = Str ''PENDING'' \<and>
     map_of (carry_apps s') (hd (body (fs s' ! 5)) ! 0) \<noteq> Some (hd (body (fs s' ! 5)))"
  by (simp add: eval_defs)

section \<open>The claims\<close>

text \<open>
  C1. The claim is that a seed and a configuration fix the output. The identifiers come from
  \<open>uuid4\<close>, which the seed does not reach: two runs with the same generator, seed and
  configuration, and different entropy, write different files.
\<close>

theorem identifiers_ignore_seed:
  "main (const_prng 0) entropy_a one_merchant_cfg \<noteq> main (const_prng 0) entropy_b one_merchant_cfg"
  by (simp add: eval_defs)

text \<open>
  C2. The claim is that a merchant drifted on one day is emitted in its drifted form on the
  next day. In this run of two days with one merchant, the merchant is mutated on day 0
  (its revenue goes from 50000.00 to 47500.00) and not on day 1: the merchants file of day 1
  (the fifth file written) shows the original revenue again, because the snapshot loop reads
  the list \<open>merchants\<close>, which the mutation never updates.
\<close>

theorem drift_not_carried_over:
  "body (projr (main drift_prng entropy_a drift_cfg) ! 0) ! 0 ! 4 = Dec 2 4750000 \<and>
   body (projr (main drift_prng entropy_a drift_cfg) ! 4) ! 0 ! 4 = Dec 2 5000000"
  using drift_run by auto

text \<open>
  C3. The claim is that the resurfaced row, with its updated content, overwrites the entry of
  its id in the carry state. In this run of two days with one application a day, the
  application of day 0 (PENDING) is resurfaced on day 1 as APPROVED, first row of the
  applications file of day 1 (the sixth file); after day 1 the carry state does not map its
  id to that row: it still holds the row of day 0, PENDING.
\<close>

theorem carry_state_after_day_counterexample:
  "hd (body (fs resurface_end ! 5)) ! 5 = Str ''APPROVED'' \<and>
   the (map_of (carry_apps resurface_end) (hd (body (fs resurface_end ! 5)) ! 0)) ! 5
     = Str ''PENDING'' \<and>
   map_of (carry_apps resurface_end) (hd (body (fs resurface_end ! 5)) ! 0)
     \<noteq> Some (hd (body (fs resurface_end ! 5)))"
  using resurface_run unfolding resurface_end_def by auto

text \<open>
  C3, as amended. After a day (identifiers being distinct), the carry state of applications
  maps the id of every application row freshly generated that day to that row, and the
  carry state of payments does so for every fresh payment row. The resurfaced row is only
  written to the file: every entry whose key is not the id of a fresh row, the entry of the
  resurfaced row among them, is what it was before the day.
\<close>

theorem carry_state_after_day:
  assumes "day cfg merchants d u s = Inr (u', s')" and "inj (uuids s)"
  shows "\<exists>M A D P res_a fresh_a extra_a res_p fresh_p extra_p.
    fs s' = fs s @ [M, A, D, P] \<and>
    body A = res_a @ concat (map emit fresh_a) @ extra_a \<and> length res_a \<le> 1 \<and>
    length fresh_a = nat (apps_per_day cfg) \<and> length extra_a \<le> 1 \<and>
    (\<forall>fr\<in>set fresh_a. map_of (carry_apps s') (fst fr ! 0) = Some (fst fr)) \<and>
    (\<forall>k. k \<notin> (\<lambda>fr. fst fr ! 0) ` set fresh_a \<longrightarrow>
       map_of (carry_apps s') k = map_of (carry_apps s) k) \<and>
    body P = res_p @ concat (map emit fresh_p) @ extra_p \<and> length res_p \<le> 1 \<and>
    length extra_p \<le> 1 \<and>
    (\<forall>fr\<in>set fresh_p. map_of (carry_pays s') (fst fr ! 0) = Some (fst fr)) \<and>
    (\<forall>k. k \<notin> (\<lambda>fr. fst fr ! 0) ` set fresh_p \<longrightarrow>
       map_of (carry_pays s') k = map_of (carry_pays s) k)"
proof -
  from assms(1) obtain mr s1 ar s2 dr s3 pr s4 where st:
    "merchants_stage cfg merchants s = Inr (mr, s1)"
    "applications_stage cfg (start_date cfg + int d)
       (s1\<lparr>fs := fs s1 @ [\<lparr>path = (output_dir cfg, ''merchants'', fmt_date (start_date cfg + int d)),
          header = (if include_header_merch cfg d then Some MERCH_HEADERS else None),
          body = mr\<rparr>]\<rparr>) = Inr (ar, s2)"
    "disbursements_stage cfg (start_date cfg + int d) ar
       (s2\<lparr>fs := fs s2 @ [\<lparr>path = (output_dir cfg, ''applications'', fmt_date (start_date cfg + int d)),
          header = Some APP_HEADERS, body = ar\<rparr>]\<rparr>) = Inr (dr, s3)"
    "payments_stage cfg (start_date cfg + int d) dr
       (s3\<lparr>fs := fs s3 @ [\<lparr>path = (output_dir cfg, ''disbursements'', fmt_date (start_date cfg + int d)),
          header = (if include_header_disb cfg d then Some DISB_HEADERS else None),
          body = dr\<rparr>]\<rparr>) = Inr (pr, s4)"
    "s' = s4\<lparr>fs := fs s4 @ [\<lparr>path = (output_dir cfg, ''payments'', fmt_date (start_date cfg + int d)),
          header = Some PAY_HEADERS, body = pr\<rparr>]\<rparr>"
    and files: "fs s' = fs s @
       [\<lparr>path = (output_dir cfg, ''merchants'', fmt_date (start_date cfg + int d)),
          header = (if include_header_merch cfg d then Some MERCH_HEADERS else None),
          body = mr\<rparr>,
        \<lparr>path = (output_dir cfg, ''applications'', fmt_date (start_date cfg + int d)),
          header = Some APP_HEADERS, body = ar\<rparr>,
        \<lparr>path = (output_dir cfg, ''disbursements'', fmt_date (start_date cfg + int d)),
          header = (if include_header_disb cfg d then Some DISB_HEADERS else None),
          body = dr\<rparr>,
        \<lparr>path = (output_dir cfg, ''payments'', fmt_date (start_date cfg + int d)),
          header = Some PAY_HEADERS, body = pr\<rparr>]"
    by (rule day_files)
  have k1: "uuids s1 = uuids s" "carry_apps s1 = carry_apps s" "carry_pays s1 = carry_pays s"
    using keepsD[OF keeps_merchants_stage st(1), of uuids]
      keepsD[OF keeps_merchants_stage st(1), of carry_apps]
      keepsD[OF keeps_merchants_stage st(1), of carry_pays] by simp_all
  have k2: "uuids s2 = uuids s1" "carry_pays s2 = carry_pays s1"
    using keepsD[OF keeps_applications_stage st(2), of uuids]
      keepsD[OF keeps_applications_stage st(2), of carry_pays] by simp_all
  have k3: "uuids s3 = uuids s2" "carry_apps s3 = carry_apps s2" "carry_pays s3 = carry_pays s2"
    using keepsD[OF keeps_disbursements_stage st(3), of uuids]
      keepsD[OF keeps_disbursements_stage st(3), of carry_apps]
      keepsD[OF keeps_disbursements_stage st(3), of carry_pays] by simp_all
  have k4: "carry_apps s4 = carry_apps s3"
    using keepsD[OF keeps_payments_stage st(4), of carry_apps] by simp
  from wpD[OF applications_stage_carried st(2)] obtain res_a fresh_a extra_a where a:
    "ar = res_a @ concat (map emit fresh_a) @ extra_a" "length res_a \<le> 1"
    "length fresh_a = nat (apps_per_day cfg)" "length extra_a \<le> 1"
    "carried carry_apps
       (s1\<lparr>fs := fs s1 @ [\<lparr>path = (output_dir cfg, ''merchants'', fmt_date (start_date cfg + int d)),
          header = (if include_header_merch cfg d then Some MERCH_HEADERS else None),
          body = mr\<rparr>]\<rparr>) (map fst fresh_a) s2"
    by blast
  from wpD[OF payments_stage_carried st(4)] obtain res_p fresh_p extra_p where p:
    "pr = res_p @ concat (map emit fresh_p) @ extra_p" "length res_p \<le> 1" "length extra_p \<le> 1"
    "carried carry_pays
       (s3\<lparr>fs := fs s3 @ [\<lparr>path = (output_dir cfg, ''disbursements'', fmt_date (start_date cfg + int d)),
          header = (if include_header_disb cfg d then Some DISB_HEADERS else None),
          body = dr\<rparr>]\<rparr>) (map fst fresh_p) s4"
    by blast
  have ca: "(\<forall>fr\<in>set fresh_a. map_of (carry_apps s') (fst fr ! 0) = Some (fst fr)) \<and>
    (\<forall>k. k \<notin> (\<lambda>fr. fst fr ! 0) ` set fresh_a \<longrightarrow>
       map_of (carry_apps s') k = map_of (carry_apps s) k)"
    using a(5) assms(2) k1 k3 k4 st(5) by (simp add: carried_def image_image)
  have cp: "(\<forall>fr\<in>set fresh_p. map_of (carry_pays s') (fst fr ! 0) = Some (fst fr)) \<and>
    (\<forall>k. k \<notin> (\<lambda>fr. fst fr ! 0) ` set fresh_p \<longrightarrow>
       map_of (carry_pays s') k = map_of (carry_pays s) k)"
    using p(4) assms(2) k1 k2 k3 st(5) by (simp add: carried_def image_image)
  show ?thesis
    apply (rule exI[of _ "\<lparr>path = (output_dir cfg, ''merchants'', fmt_date (start_date cfg + int d)),
          header = (if include_header_merch cfg d then Some MERCH_HEADERS else None),
          body = mr\<rparr>"])
    apply (rule exI[of _ "\<lparr>path = (output_dir cfg, ''applications'', fmt_date (start_date cfg + int d)),
          header = Some APP_HEADERS, body = ar\<rparr>"])
    apply (rule exI[of _ "\<lparr>path = (output_dir cfg, ''disbursements'', fmt_date (start_date cfg + int d)),
          header = (if include_header_disb cfg d then Some DISB_HEADERS else None),
          body = dr\<rparr>"])
    apply (rule exI[of _ "\<lparr>path = (output_dir cfg, ''payments'', fmt_date (start_date cfg + int d)),
          header = Some PAY_HEADERS, body = pr\<rparr>"])
    apply (rule exI[of _ res_a], rule exI[of _ fresh_a], rule exI[of _ extra_a])
    apply (rule exI[of _ res_p], rule exI[of _ fresh_p], rule exI[of _ extra_p])
    using files a(1-4) p(1-3) ca cp by simp
qed

theorem carry_state_after_day_witness:
  "\<exists>ms s0 s'.
     start demo_cfg (initial (const_prng (1 / 2)) entropy_a demo_cfg) = Inr (ms, s0) \<and>
     day demo_cfg ms 0 () s0 = Inr ((), s') \<and> inj (uuids s0) \<and>
     (\<exists>M A D P res_a fresh_a extra_a res_p fresh_p extra_p.
        fs s' = fs s0 @ [M, A, D, P] \<and>
        body A = res_a @ concat (map emit fresh_a) @ extra_a \<and> length fresh_a = 1 \<and>
        (\<forall>fr\<in>set fresh_a. map_of (carry_apps s') (fst fr ! 0) = Some (fst fr)) \<and>
        body P = res_p @ concat (map emit fresh_p) @ extra_p \<and>
        (\<forall>fr\<in>set fresh_p. map_of (carry_pays s') (fst fr ! 0) = Some (fst fr)))"
proof -
  from demo_day obtain ms s0 s' where run:
    "start demo_cfg (initial (const_prng (1 / 2)) entropy_a demo_cfg) = Inr (ms, s0)"
    "day demo_cfg ms 0 () s0 = Inr ((), s')"
    by blast
  have "uuids s0 = entropy_a"
    using start_uuids[OF run(1)] by (simp add: initial_def)
  then have inj: "inj (uuids s0)" by (simp add: inj_entropy_a)
  from carry_state_after_day[OF run(2) inj] run inj show ?thesis
    unfolding demo_cfg_simps(4) by blast
qed






text \<open>
  C6. The claim is that a configuration without merchants cannot make the generator fail.
  With no merchant and one application per day, the first application samples from an
  empty pool and \<open>random.choice\<close> raises IndexError, whatever the two sources return.
\<close>

theorem zero_merchants_fail:
  "main prng urandom no_merchant_cfg = Inl IndexError"
  by (simp add: eval_defs)

text \<open>
  C7. Every merchant that pool construction produces, and every merchant that any number
  of mutations produce from it, has a risk score in [0,1] and a revenue above 0; and every
  row of a merchants file written from the pool that \<open>main\<close> builds is the injected invalid
  row or has a risk score in [0,1] and a revenue above 0.
\<close>

theorem merchant_bounds:
  "(\<forall>m. merchant_reach cfg m \<longrightarrow> merchant_ok m) \<and>
   (\<forall>s ms s1 t rows t'. start cfg s = Inr (ms, s1) \<longrightarrow>
      merchants_stage cfg ms t = Inr (rows, t') \<longrightarrow>
      (\<forall>r\<in>set rows. r = bad_merchant \<or> merchant_row_ok r))"
  using merchant_reach_ok wpD[OF merchants_stage_ok[OF start_ok]] by blast

theorem merchant_bounds_witness:
  "\<exists>ms s1 rows t'.
     gen_merchants (quiet_cfg\<lparr>num_merchants := 1\<rparr>)
       (initial (const_prng 0) entropy_a quiet_cfg) = Inr (ms, s1) \<and>
     start (quiet_cfg\<lparr>num_merchants := 1\<rparr>)
       (initial (const_prng 0) entropy_a quiet_cfg) =
         Inr (ms, s1\<lparr>merchant_by_id := [(merchant_id (hd ms), hd ms)]\<rparr>) \<and>
     merchants_stage (quiet_cfg\<lparr>num_merchants := 1\<rparr>) ms s1 = Inr (rows, t') \<and>
     length ms = 1 \<and> length rows = 1 \<and>
     merchant_reach (quiet_cfg\<lparr>num_merchants := 1\<rparr>) (hd ms) \<and> merchant_ok (hd ms) \<and>
     (\<forall>r\<in>set rows. r = bad_merchant \<or> merchant_row_ok r)"
proof -
  have "\<exists>ms s1 rows t'.
     gen_merchants (quiet_cfg\<lparr>num_merchants := 1\<rparr>)
       (initial (const_prng 0) entropy_a quiet_cfg) = Inr (ms, s1) \<and>
     start (quiet_cfg\<lparr>num_merchants := 1\<rparr>)
       (initial (const_prng 0) entropy_a quiet_cfg) =
         Inr (ms, s1\<lparr>merchant_by_id := [(merchant_id (hd ms), hd ms)]\<rparr>) \<and>
     merchants_stage (quiet_cfg\<lparr>num_merchants := 1\<rparr>) ms s1 = Inr (rows, t') \<and>
     length ms = 1 \<and> length rows = 1"
    by (simp add: eval_defs)
  then obtain ms s1 rows t' where run:
    "gen_merchants (quiet_cfg\<lparr>num_merchants := 1\<rparr>)
       (initial (const_prng 0) entropy_a quiet_cfg) = Inr (ms, s1)"
    "start (quiet_cfg\<lparr>num_merchants := 1\<rparr>)
       (initial (const_prng 0) entropy_a quiet_cfg) =
         Inr (ms, s1\<lparr>merchant_by_id := [(merchant_id (hd ms), hd ms)]\<rparr>)"
    "merchants_stage (quiet_cfg\<lparr>num_merchants := 1\<rparr>) ms s1 = Inr (rows, t')"
    "length ms = 1" "length rows = 1"
    by blast
  from run(4) have "hd ms \<in> set ms" by (cases ms) simp_all
  with run(1) have reach: "merchant_reach (quiet_cfg\<lparr>num_merchants := 1\<rparr>) (hd ms)"
    by (rule merchant_reach.pool)
  from merchant_bounds[of "quiet_cfg\<lparr>num_merchants := 1\<rparr>"] reach run(2,3)
  have "merchant_ok (hd ms)" "\<forall>r\<in>set rows. r = bad_merchant \<or> merchant_row_ok r"
    by blast+
  with run reach show ?thesis by blast
qed



text \<open>
  C9. For every day index \<open>d\<close> and a header period other than 0, the merchants file
  of day \<open>d\<close> is written without its header exactly when \<open>d mod no_header_every_n_days = 1\<close>,
  the disbursements file exactly when \<open>d mod no_header_every_n_days = 2\<close>; the applications
  and payments files always have their header. The four files of the day are the ones named
  after the batch date, in this order.
\<close>

theorem header_schedule:
  assumes "day cfg merchants d u s = Inr (u', s')"
    and "no_header_every_n_days cfg \<noteq> 0"
  shows "\<exists>M A D P. fs s' = fs s @ [M, A, D, P] \<and>
    path M = (output_dir cfg, ''merchants'', fmt_date (start_date cfg + int d)) \<and>
    path A = (output_dir cfg, ''applications'', fmt_date (start_date cfg + int d)) \<and>
    path D = (output_dir cfg, ''disbursements'', fmt_date (start_date cfg + int d)) \<and>
    path P = (output_dir cfg, ''payments'', fmt_date (start_date cfg + int d)) \<and>
    header M = (if int d mod no_header_every_n_days cfg = 1 then None else Some MERCH_HEADERS) \<and>
    header D = (if int d mod no_header_every_n_days cfg = 2 then None else Some DISB_HEADERS) \<and>
    header A = Some APP_HEADERS \<and> header P = Some PAY_HEADERS"
proof -
  from assms(1) obtain mr ar dr pr where
    "fs s' = fs s @
       [\<lparr>path = (output_dir cfg, ''merchants'', fmt_date (start_date cfg + int d)),
          header = (if include_header_merch cfg d then Some MERCH_HEADERS else None),
          body = mr\<rparr>,
        \<lparr>path = (output_dir cfg, ''applications'', fmt_date (start_date cfg + int d)),
          header = Some APP_HEADERS, body = ar\<rparr>,
        \<lparr>path = (output_dir cfg, ''disbursements'', fmt_date (start_date cfg + int d)),
          header = (if include_header_disb cfg d then Some DISB_HEADERS else None),
          body = dr\<rparr>,
        \<lparr>path = (output_dir cfg, ''payments'', fmt_date (start_date cfg + int d)),
          header = Some PAY_HEADERS, body = pr\<rparr>]"
    by (rule day_files)
  then show ?thesis
    using assms(2) by (simp add: include_header_merch_def include_header_disb_def)
qed

theorem header_schedule_witness:
  "\<exists>s'. day (quiet_cfg\<lparr>num_merchants := 0, apps_per_day := 0\<rparr>) [] 1 ()
         (initial (const_prng (1 / 2)) entropy_a quiet_cfg) = Inr ((), s') \<and>
     no_header_every_n_days (quiet_cfg\<lparr>num_merchants := 0, apps_per_day := 0\<rparr>) \<noteq> 0 \<and>
     (\<exists>M A D P. fs s' = [M, A, D, P] \<and> header M = None \<and> header D = Some DISB_HEADERS \<and>
        header A = Some APP_HEADERS \<and> header P = Some PAY_HEADERS)"
proof -
  have "\<exists>s'. day (quiet_cfg\<lparr>num_merchants := 0, apps_per_day := 0\<rparr>) [] 1 ()
         (initial (const_prng (1 / 2)) entropy_a quiet_cfg) = Inr ((), s')"
    by (simp add: eval_defs)
  then obtain s' where run: "day (quiet_cfg\<lparr>num_merchants := 0, apps_per_day := 0\<rparr>) [] 1 ()
         (initial (const_prng (1 / 2)) entropy_a quiet_cfg) = Inr ((), s')" ..
  have n: "no_header_every_n_days (quiet_cfg\<lparr>num_merchants := 0, apps_per_day := 0\<rparr>) \<noteq> 0"
    by (simp add: cfg_defs)
  from header_schedule[OF run n] run n show ?thesis
    by (auto simp: cfg_defs initial_def)
qed



end
